theory Spec2Isabelle
  imports Complex_Main
begin

section \<open>Floating-point values as the notebooks use them\<close>

text \<open>
  The notebooks compute with numpy \<open>float64\<close> scalars and one-dimensional arrays.
  A value is a real number or one of the three special values of IEEE 754: plus
  infinity, minus infinity and not-a-number; zero carries no sign. The special
  values follow the IEEE rules that numpy applies (it warns and carries on, it
  does not raise).

  The arithmetic is read in two ways, kept apart by name. In the exact reading
  (\<open>np_add\<close>, \<open>np_pow\<close>, ... and the model functions under their source names) a
  finite operation returns the exact real result: this is the reading in which
  the mathematics of the notebooks is stated, a derivative or an identity between
  formulas. In the float64 reading (\<open>f64_add\<close>, \<open>f64_pow\<close>, ... and the model
  functions with the suffix \<open>_f64\<close>) every result is brought into the range of a
  \<open>float64\<close>, so that it can overflow and underflow as the running code does.
\<close>

datatype fval = Fin real | PInf | NInf | NaN

datatype error = ValueError

fun is_fin :: "fval \<Rightarrow> bool" where
  "is_fin (Fin x) = True"
| "is_fin _ = False"

fun pos_fin :: "fval \<Rightarrow> bool" where
  "pos_fin (Fin x) = (0 < x)"
| "pos_fin _ = False"

fun nonneg_fin :: "fval \<Rightarrow> bool" where
  "nonneg_fin (Fin x) = (0 \<le> x)"
| "nonneg_fin _ = False"

fun fpos :: "fval \<Rightarrow> bool" where
  "fpos (Fin x) = (0 < x)"
| "fpos PInf = True"
| "fpos _ = False"

fun np_neg :: "fval \<Rightarrow> fval" where
  "np_neg (Fin x) = Fin (- x)"
| "np_neg PInf = NInf"
| "np_neg NInf = PInf"
| "np_neg NaN = NaN"

fun np_add :: "fval \<Rightarrow> fval \<Rightarrow> fval" where
  "np_add NaN b = NaN"
| "np_add a NaN = NaN"
| "np_add (Fin x) (Fin y) = Fin (x + y)"
| "np_add PInf NInf = NaN"
| "np_add NInf PInf = NaN"
| "np_add PInf b = PInf"
| "np_add a PInf = PInf"
| "np_add NInf b = NInf"
| "np_add a NInf = NInf"

definition np_sub :: "fval \<Rightarrow> fval \<Rightarrow> fval" where
  "np_sub a b = np_add a (np_neg b)"

fun np_mul :: "fval \<Rightarrow> fval \<Rightarrow> fval" where
  "np_mul NaN b = NaN"
| "np_mul a NaN = NaN"
| "np_mul (Fin x) (Fin y) = Fin (x * y)"
| "np_mul a b =
     (if a = Fin 0 \<or> b = Fin 0 then NaN
      else if fpos a = fpos b then PInf else NInf)"

fun np_div :: "fval \<Rightarrow> fval \<Rightarrow> fval" where
  "np_div NaN b = NaN"
| "np_div a NaN = NaN"
| "np_div (Fin x) (Fin y) =
     (if y \<noteq> 0 then Fin (x / y)
      else if x = 0 then NaN
      else if 0 < x then PInf else NInf)"
| "np_div (Fin x) b = Fin 0"
| "np_div a (Fin y) = (if fpos a = (0 \<le> y) then PInf else NInf)"
| "np_div a b = NaN"

definition is_int :: "real \<Rightarrow> bool" where
  "is_int y = (of_int \<lfloor>y\<rfloor> = y)"

definition is_odd_int :: "real \<Rightarrow> bool" where
  "is_odd_int y = (is_int y \<and> odd \<lfloor>y\<rfloor>)"

text \<open>
  \<open>x ** y\<close> on floats is the C library's \<open>pow\<close>: an exponent of zero and a base
  of one give one whatever the other argument is; a negative base has a value at
  integer exponents only.
\<close>

definition np_pow :: "fval \<Rightarrow> fval \<Rightarrow> fval" where
  "np_pow a b =
     (if b = Fin 0 \<or> a = Fin 1 then Fin 1
      else case a of
        NaN \<Rightarrow> NaN
      | Fin x \<Rightarrow>
          (case b of
             NaN \<Rightarrow> NaN
           | Fin y \<Rightarrow>
               (if 0 < x then Fin (x powr y)
                else if x = 0 then (if 0 < y then Fin 0 else PInf)
                else if is_int y then Fin (x powi \<lfloor>y\<rfloor>) else NaN)
           | PInf \<Rightarrow> (if \<bar>x\<bar> < 1 then Fin 0 else if \<bar>x\<bar> = 1 then Fin 1 else PInf)
           | NInf \<Rightarrow> (if \<bar>x\<bar> < 1 then PInf else if \<bar>x\<bar> = 1 then Fin 1 else Fin 0))
      | PInf \<Rightarrow>
          (case b of
             NaN \<Rightarrow> NaN
           | Fin y \<Rightarrow> (if 0 < y then PInf else Fin 0)
           | PInf \<Rightarrow> PInf
           | NInf \<Rightarrow> Fin 0)
      | NInf \<Rightarrow>
          (case b of
             NaN \<Rightarrow> NaN
           | Fin y \<Rightarrow> (if 0 < y then (if is_odd_int y then NInf else PInf) else Fin 0)
           | PInf \<Rightarrow> PInf
           | NInf \<Rightarrow> Fin 0))"

fun np_log :: "fval \<Rightarrow> fval" where
  "np_log (Fin x) = (if 0 < x then Fin (ln x) else if x = 0 then NInf else NaN)"
| "np_log PInf = PInf"
| "np_log NInf = NaN"
| "np_log NaN = NaN"

fun np_exp :: "fval \<Rightarrow> fval" where
  "np_exp (Fin x) = Fin (exp x)"
| "np_exp PInf = PInf"
| "np_exp NInf = Fin 0"
| "np_exp NaN = NaN"

subsection \<open>The range of a float64\<close>

text \<open>
  A result whose magnitude reaches \<open>2 ^ 1024 - 2 ^ 970\<close>, halfway between the
  largest \<open>float64\<close> and \<open>2 ^ 1024\<close>, overflows to an infinity; a result whose
  magnitude is at most \<open>2 ^ -1075\<close>, half the smallest positive \<open>float64\<close>,
  underflows to zero. Rounding to the nearest \<open>float64\<close> inside the range is left
  out: a result in the range is kept as it is.
\<close>

definition overflow_threshold :: real where
  "overflow_threshold = 2 ^ 1024 - 2 ^ 970"

definition underflow_threshold :: real where
  "underflow_threshold = 1 / 2 ^ 1075"

definition rnd :: "real \<Rightarrow> fval" where
  "rnd x =
     (if overflow_threshold \<le> x then PInf
      else if x \<le> - overflow_threshold then NInf
      else if \<bar>x\<bar> \<le> underflow_threshold then Fin 0
      else Fin x)"

fun to_f64 :: "fval \<Rightarrow> fval" where
  "to_f64 (Fin x) = rnd x"
| "to_f64 v = v"

definition f64_add :: "fval \<Rightarrow> fval \<Rightarrow> fval" where
  "f64_add a b = to_f64 (np_add a b)"

definition f64_sub :: "fval \<Rightarrow> fval \<Rightarrow> fval" where
  "f64_sub a b = to_f64 (np_sub a b)"

definition f64_mul :: "fval \<Rightarrow> fval \<Rightarrow> fval" where
  "f64_mul a b = to_f64 (np_mul a b)"

definition f64_div :: "fval \<Rightarrow> fval \<Rightarrow> fval" where
  "f64_div a b = to_f64 (np_div a b)"

definition f64_pow :: "fval \<Rightarrow> fval \<Rightarrow> fval" where
  "f64_pow a b = to_f64 (np_pow a b)"

definition f64_log :: "fval \<Rightarrow> fval" where
  "f64_log a = to_f64 (np_log a)"

definition f64_exp :: "fval \<Rightarrow> fval" where
  "f64_exp a = to_f64 (np_exp a)"

text \<open>
  Comparisons and ranges of values. \<open>fle\<close> is \<open><=\<close> on floats, false whenever
  an argument is not-a-number.
\<close>

fun fle :: "fval \<Rightarrow> fval \<Rightarrow> bool" where
  "fle NaN b = False"
| "fle a NaN = False"
| "fle NInf b = True"
| "fle a PInf = True"
| "fle (Fin x) (Fin y) = (x \<le> y)"
| "fle a b = False"

fun nonneg_or_inf :: "fval \<Rightarrow> bool" where
  "nonneg_or_inf (Fin x) = (0 \<le> x)"
| "nonneg_or_inf PInf = True"
| "nonneg_or_inf v = False"

fun not_negative :: "fval \<Rightarrow> bool" where
  "not_negative NaN = True"
| "not_negative v = nonneg_or_inf v"

fun in_unit_interval :: "fval \<Rightarrow> bool" where
  "in_unit_interval (Fin x) = (0 \<le> x \<and> x \<le> 1)"
| "in_unit_interval v = False"

subsection \<open>Scalars and one-dimensional arrays\<close>

text \<open>
  The model functions are called on a single time and on an array of times alike;
  numpy applies an operation between an array and a scalar to every element.
  Between two arrays the shapes must agree, or one of them has length one and is
  repeated; otherwise numpy raises \<open>ValueError\<close>.
\<close>

datatype nd = Scalar fval | Arr "fval list"

fun nd_map :: "(fval \<Rightarrow> fval) \<Rightarrow> nd \<Rightarrow> nd" where
  "nd_map f (Scalar x) = Scalar (f x)"
| "nd_map f (Arr xs) = Arr (map f xs)"

fun nd_mul :: "nd \<Rightarrow> nd \<Rightarrow> error + nd" where
  "nd_mul (Scalar x) (Scalar y) = Inr (Scalar (np_mul x y))"
| "nd_mul (Scalar x) (Arr ys) = Inr (Arr (map (np_mul x) ys))"
| "nd_mul (Arr xs) (Scalar y) = Inr (Arr (map (\<lambda>x. np_mul x y) xs))"
| "nd_mul (Arr xs) (Arr ys) =
     (if length xs = length ys then Inr (Arr (map2 np_mul xs ys))
      else if length xs = 1 then Inr (Arr (map (np_mul (hd xs)) ys))
      else if length ys = 1 then Inr (Arr (map (\<lambda>x. np_mul x (hd ys)) xs))
      else Inl ValueError)"

fun np_sum :: "nd \<Rightarrow> fval" where
  "np_sum (Scalar x) = x"
| "np_sum (Arr xs) = foldl np_add (Fin 0) xs"

fun nd_mul_f64 :: "nd \<Rightarrow> nd \<Rightarrow> error + nd" where
  "nd_mul_f64 (Scalar x) (Scalar y) = Inr (Scalar (f64_mul x y))"
| "nd_mul_f64 (Scalar x) (Arr ys) = Inr (Arr (map (f64_mul x) ys))"
| "nd_mul_f64 (Arr xs) (Scalar y) = Inr (Arr (map (\<lambda>x. f64_mul x y) xs))"
| "nd_mul_f64 (Arr xs) (Arr ys) =
     (if length xs = length ys then Inr (Arr (map2 f64_mul xs ys))
      else if length xs = 1 then Inr (Arr (map (f64_mul (hd xs)) ys))
      else if length ys = 1 then Inr (Arr (map (\<lambda>x. f64_mul x (hd ys)) xs))
      else Inl ValueError)"

fun np_sum_f64 :: "nd \<Rightarrow> fval" where
  "np_sum_f64 (Scalar x) = x"
| "np_sum_f64 (Arr xs) = foldl f64_add (Fin 0) xs"

fun nd_all :: "(fval \<Rightarrow> bool) \<Rightarrow> nd \<Rightarrow> bool" where
  "nd_all P (Scalar x) = P x"
| "nd_all P (Arr xs) = list_all P xs"

section \<open>The Weibull model of Part 2\<close>

text \<open>
  \<open>lambda_, rho_ = params\<close> unpacks a sequence of exactly two elements and raises
  \<open>ValueError\<close> for any other length. The source's \<open>lambda_\<close> and \<open>rho_\<close>
  are written \<open>lam\<close> and \<open>rho\<close>.
\<close>

fun cumulative_hazard :: "fval list \<Rightarrow> nd \<Rightarrow> error + nd" where
  "cumulative_hazard [lam, rho] t =
     Inr (nd_map (\<lambda>x. np_pow (np_div x lam) rho) t)"
| "cumulative_hazard _ t = Inl ValueError"

fun hazard :: "fval list \<Rightarrow> nd \<Rightarrow> error + nd" where
  "hazard [lam, rho] t =
     Inr (nd_map (\<lambda>x. np_mul (np_div rho lam)
                         (np_pow (np_div x lam) (np_sub rho (Fin 1)))) t)"
| "hazard _ t = Inl ValueError"

definition log_hazard :: "fval list \<Rightarrow> nd \<Rightarrow> error + nd" where
  "log_hazard params t =
     (case hazard params t of Inl err \<Rightarrow> Inl err | Inr h \<Rightarrow> Inr (nd_map np_log h))"

text \<open>
  \<open>np.sum(e * log_hazard(params, t)) - np.sum(cumulative_hazard(params, t))\<close>, with
  the log-hazard of the notebook at hand: the three notebooks share this text and
  differ in the \<open>log_hazard\<close> it calls.
\<close>

definition log_likelihood_with ::
  "(fval list \<Rightarrow> nd \<Rightarrow> error + nd) \<Rightarrow> fval list \<Rightarrow> nd \<Rightarrow> nd \<Rightarrow> error + fval" where
  "log_likelihood_with lh params t e =
     (case lh params t of
        Inl err \<Rightarrow> Inl err
      | Inr lhv \<Rightarrow>
          (case nd_mul e lhv of
             Inl err \<Rightarrow> Inl err
           | Inr weighted \<Rightarrow>
               (case cumulative_hazard params t of
                  Inl err \<Rightarrow> Inl err
                | Inr ch \<Rightarrow> Inr (np_sub (np_sum weighted) (np_sum ch)))))"

definition log_likelihood :: "fval list \<Rightarrow> nd \<Rightarrow> nd \<Rightarrow> error + fval" where
  "log_likelihood = log_likelihood_with log_hazard"

definition negative_log_likelihood :: "fval list \<Rightarrow> nd \<Rightarrow> nd \<Rightarrow> error + fval" where
  "negative_log_likelihood params t e =
     (case log_likelihood params t e of Inl err \<Rightarrow> Inl err | Inr v \<Rightarrow> Inr (np_neg v))"

subsection \<open>Part 2 in the float64 reading\<close>

fun cumulative_hazard_f64 :: "fval list \<Rightarrow> nd \<Rightarrow> error + nd" where
  "cumulative_hazard_f64 [lam, rho] t =
     Inr (nd_map (\<lambda>x. f64_pow (f64_div x lam) rho) t)"
| "cumulative_hazard_f64 _ t = Inl ValueError"

fun hazard_f64 :: "fval list \<Rightarrow> nd \<Rightarrow> error + nd" where
  "hazard_f64 [lam, rho] t =
     Inr (nd_map (\<lambda>x. f64_mul (f64_div rho lam)
                         (f64_pow (f64_div x lam) (f64_sub rho (Fin 1)))) t)"
| "hazard_f64 _ t = Inl ValueError"

definition log_hazard_f64 :: "fval list \<Rightarrow> nd \<Rightarrow> error + nd" where
  "log_hazard_f64 params t =
     (case hazard_f64 params t of Inl err \<Rightarrow> Inl err | Inr h \<Rightarrow> Inr (nd_map f64_log h))"

definition log_likelihood_with_f64 ::
  "(fval list \<Rightarrow> nd \<Rightarrow> error + nd) \<Rightarrow> fval list \<Rightarrow> nd \<Rightarrow> nd \<Rightarrow> error + fval" where
  "log_likelihood_with_f64 lh params t e =
     (case lh params t of
        Inl err \<Rightarrow> Inl err
      | Inr lhv \<Rightarrow>
          (case nd_mul_f64 e lhv of
             Inl err \<Rightarrow> Inl err
           | Inr weighted \<Rightarrow>
               (case cumulative_hazard_f64 params t of
                  Inl err \<Rightarrow> Inl err
                | Inr ch \<Rightarrow> Inr (f64_sub (np_sum_f64 weighted) (np_sum_f64 ch)))))"

definition log_likelihood_f64 :: "fval list \<Rightarrow> nd \<Rightarrow> nd \<Rightarrow> error + fval" where
  "log_likelihood_f64 = log_likelihood_with_f64 log_hazard_f64"

section \<open>The closed-form log-hazard of Part 3\<close>

text \<open>
  Part 3 keeps \<open>cumulative_hazard\<close> and replaces the log-hazard by
  \<open>np.log(rho_) - np.log(lambda_) + (rho_ - 1) * (np.log(t) - np.log(lambda_))\<close>.
\<close>

fun log_hazard_p3 :: "fval list \<Rightarrow> nd \<Rightarrow> error + nd" where
  "log_hazard_p3 [lam, rho] t =
     Inr (nd_map (\<lambda>x. np_add (np_sub (np_log rho) (np_log lam))
                         (np_mul (np_sub rho (Fin 1)) (np_sub (np_log x) (np_log lam)))) t)"
| "log_hazard_p3 _ t = Inl ValueError"

definition log_likelihood_p3 :: "fval list \<Rightarrow> nd \<Rightarrow> nd \<Rightarrow> error + fval" where
  "log_likelihood_p3 = log_likelihood_with log_hazard_p3"

definition negative_log_likelihood_p3 :: "fval list \<Rightarrow> nd \<Rightarrow> nd \<Rightarrow> error + fval" where
  "negative_log_likelihood_p3 params t e =
     (case log_likelihood_p3 params t e of Inl err \<Rightarrow> Inl err | Inr v \<Rightarrow> Inr (np_neg v))"

subsection \<open>Part 3 in the float64 reading\<close>

fun log_hazard_p3_f64 :: "fval list \<Rightarrow> nd \<Rightarrow> error + nd" where
  "log_hazard_p3_f64 [lam, rho] t =
     Inr (nd_map (\<lambda>x. f64_add (f64_sub (f64_log rho) (f64_log lam))
                         (f64_mul (f64_sub rho (Fin 1)) (f64_sub (f64_log x) (f64_log lam)))) t)"
| "log_hazard_p3_f64 _ t = Inl ValueError"

definition log_likelihood_p3_f64 :: "fval list \<Rightarrow> nd \<Rightarrow> nd \<Rightarrow> error + fval" where
  "log_likelihood_p3_f64 = log_likelihood_with_f64 log_hazard_p3_f64"

section \<open>Derivatives as autograd returns them\<close>

text \<open>
  Part 6 differentiates with autograd (\<open>elementwise_grad\<close>, \<open>value_and_grad\<close>).
  The library is not part of the repository; Part 3 describes what it returns as
  exact, pointwise derivatives, and that is the model: the derivative as a real
  number, which the float64 reading of Part 6 brings into the range of a
  \<open>float64\<close> like the result of any other operation. A function of one
  real argument is read as \<open>real \<Rightarrow> real option\<close>
  (\<open>None\<close> where the program raises or the value is not finite). Where it is
  finite around the argument and differentiable there, the result is its
  derivative; anywhere else, and at an argument that is not finite, the model
  leaves the result unspecified.
\<close>

fun fin_of :: "fval \<Rightarrow> real option" where
  "fin_of (Fin x) = Some x"
| "fin_of _ = None"

fun fin_scalar :: "error + nd \<Rightarrow> real option" where
  "fin_scalar (Inr (Scalar v)) = fin_of v"
| "fin_scalar _ = None"

fun fin_result :: "error + fval \<Rightarrow> real option" where
  "fin_result (Inr v) = fin_of v"
| "fin_result _ = None"

definition smooth_at :: "(real \<Rightarrow> real option) \<Rightarrow> real \<Rightarrow> bool" where
  "smooth_at f s =
     (eventually (\<lambda>u. f u \<noteq> None) (nhds s) \<and>
      (\<exists>d. ((\<lambda>u. the (f u)) has_real_derivative d) (at s)))"

definition ad_deriv :: "(real \<Rightarrow> real option) \<Rightarrow> real \<Rightarrow> fval" where
  "ad_deriv f s =
     (if smooth_at f s then Fin (THE d. ((\<lambda>u. the (f u)) has_real_derivative d) (at s))
      else undefined)"

fun elementwise_grad :: "(nd \<Rightarrow> error + nd) \<Rightarrow> fval \<Rightarrow> fval" where
  "elementwise_grad f (Fin s) = ad_deriv (\<lambda>u. fin_scalar (f (Scalar (Fin u)))) s"
| "elementwise_grad f x = undefined"

text \<open>
  The gradient with respect to the parameter vector: one partial derivative for
  each element, the others held fixed.
\<close>

fun partial_at :: "(fval list \<Rightarrow> real option) \<Rightarrow> fval list \<Rightarrow> nat \<Rightarrow> fval" where
  "partial_at f p i =
     (case p ! i of
        Fin x \<Rightarrow> ad_deriv (\<lambda>u. f (p[i := Fin u])) x
      | _ \<Rightarrow> undefined)"

definition grad_params :: "(fval list \<Rightarrow> real option) \<Rightarrow> fval list \<Rightarrow> fval list" where
  "grad_params f p = map (partial_at f p) [0..<length p]"

definition value_and_grad ::
  "(fval list \<Rightarrow> error + fval) \<Rightarrow> fval list \<Rightarrow> error + (fval \<times> fval list)" where
  "value_and_grad f params =
     (case f params of
        Inl err \<Rightarrow> Inl err
      | Inr v \<Rightarrow> Inr (v, grad_params (\<lambda>p. fin_result (f p)) params))"

section \<open>The differentiated model of Part 6\<close>

text \<open>
  \<open>hazard = elementwise_grad(cumulative_hazard, argnum=1)\<close>: the forward pass runs
  first, so an error of \<open>cumulative_hazard\<close> is an error of the hazard.
\<close>

definition hazard_p6 :: "fval list \<Rightarrow> nd \<Rightarrow> error + nd" where
  "hazard_p6 params t =
     (case cumulative_hazard params t of
        Inl err \<Rightarrow> Inl err
      | Inr ch \<Rightarrow> Inr (nd_map (elementwise_grad (cumulative_hazard params)) t))"

definition log_hazard_p6 :: "fval list \<Rightarrow> nd \<Rightarrow> error + nd" where
  "log_hazard_p6 params t =
     (case hazard_p6 params t of Inl err \<Rightarrow> Inl err | Inr h \<Rightarrow> Inr (nd_map np_log h))"

definition log_likelihood_p6 :: "fval list \<Rightarrow> nd \<Rightarrow> nd \<Rightarrow> error + fval" where
  "log_likelihood_p6 = log_likelihood_with log_hazard_p6"

definition negative_log_likelihood_p6 :: "fval list \<Rightarrow> nd \<Rightarrow> nd \<Rightarrow> error + fval" where
  "negative_log_likelihood_p6 params t e =
     (case log_likelihood_p6 params t e of Inl err \<Rightarrow> Inl err | Inr v \<Rightarrow> Inr (np_neg v))"



text \<open>
  \<open>survival_function\<close> of Part 6 is \<open>np.exp(-cumulative_hazard(params, t))\<close>, in
  the float64 reading.
\<close>

definition survival_function_f64 :: "fval list \<Rightarrow> nd \<Rightarrow> error + nd" where
  "survival_function_f64 params t =
     (case cumulative_hazard_f64 params t of
        Inl err \<Rightarrow> Inl err
      | Inr ch \<Rightarrow> Inr (nd_map (\<lambda>x. f64_exp (np_neg x)) ch))"

section \<open>What the notebooks hand to the optimizer\<close>

text \<open>
  The first argument of each \<open>scipy.optimize.minimize\<close> call that the notebooks
  write out. Part 2 passes \<open>log_likelihood\<close>, Part 3 \<open>negative_log_likelihood\<close>,
  Part 6 \<open>value_and_grad(negative_log_likelihood)\<close> with \<open>jac=True\<close>, of which the
  optimizer minimizes the first component. The second calls of Part 2 and Part 3
  leave the argument for the reader to fill in.
\<close>

definition objective_part2 :: "fval list \<Rightarrow> nd \<Rightarrow> nd \<Rightarrow> error + fval" where
  "objective_part2 = log_likelihood"

definition objective_part3 :: "fval list \<Rightarrow> nd \<Rightarrow> nd \<Rightarrow> error + fval" where
  "objective_part3 = negative_log_likelihood_p3"

definition objective_part6 :: "fval list \<Rightarrow> nd \<Rightarrow> nd \<Rightarrow> error + fval" where
  "objective_part6 params t e =
     (case value_and_grad (\<lambda>p. negative_log_likelihood_p6 p t e) params of
        Inl err \<Rightarrow> Inl err
      | Inr (v, g) \<Rightarrow> Inr v)"

section \<open>The likelihood as a sum over the observed subjects\<close>

text \<open>
  The reading of the log-likelihood that the notebooks' formula gives, to compare
  the code with: the log-hazard summed over the times with indicator one, that is
  \<open>np.sum(log_hazard(params, t[e == 1]))\<close>, minus the cumulative hazard summed over
  all times, in the float64 reading.
\<close>

definition observed :: "fval list \<Rightarrow> fval list \<Rightarrow> fval list" where
  "observed ts es = map fst (filter (\<lambda>(t, e). e = Fin 1) (zip ts es))"

definition log_likelihood_observed_f64 ::
  "(fval list \<Rightarrow> nd \<Rightarrow> error + nd) \<Rightarrow> fval list \<Rightarrow> fval list \<Rightarrow> fval list \<Rightarrow> error + fval" where
  "log_likelihood_observed_f64 lh params ts es =
     (case lh params (Arr (observed ts es)) of
        Inl err \<Rightarrow> Inl err
      | Inr lhv \<Rightarrow>
          (case cumulative_hazard_f64 params (Arr ts) of
             Inl err \<Rightarrow> Inl err
           | Inr ch \<Rightarrow> Inr (f64_sub (np_sum_f64 lhv) (np_sum_f64 ch))))"

text \<open>A function of the model has a finite value at a single time.\<close>

definition finite_at :: "(fval list \<Rightarrow> nd \<Rightarrow> error + nd) \<Rightarrow> fval list \<Rightarrow> fval \<Rightarrow> bool" where
  "finite_at f params x = (case f params (Scalar x) of Inr (Scalar v) \<Rightarrow> is_fin v | _ \<Rightarrow> False)"

text \<open>The comparison \<open>x <= 0\<close> on floats: false for not-a-number.\<close>

fun np_le_zero :: "fval \<Rightarrow> bool" where
  "np_le_zero (Fin x) = (x \<le> 0)"
| "np_le_zero NInf = True"
| "np_le_zero _ = False"

section \<open>Results inside the range of a float64\<close>

text \<open>
  A real result is in range when it is zero or its magnitude lies in the range of
  the normal \<open>float64\<close> numbers, from \<open>2 ^ -1022\<close> up to the overflow
  threshold: the float64 operation then returns it, up to rounding. The
  predicates below say so for every intermediate result of a model function at a
  finite time, each written as the real number that exact arithmetic gives for
  it, in the order in which the source computes them: the quotients, the
  exponent, the power, the product and the logarithms.
\<close>

definition in_range :: "real \<Rightarrow> bool" where
  "in_range x \<longleftrightarrow> x = 0 \<or> (1 / 2 ^ 1022 \<le> \<bar>x\<bar> \<and> \<bar>x\<bar> < overflow_threshold)"

fun cumulative_hazard_in_range :: "real \<Rightarrow> real \<Rightarrow> fval \<Rightarrow> bool" where
  "cumulative_hazard_in_range l r (Fin s) = (in_range (s / l) \<and> in_range ((s / l) powr r))"
| "cumulative_hazard_in_range l r v = False"

fun hazard_in_range :: "real \<Rightarrow> real \<Rightarrow> fval \<Rightarrow> bool" where
  "hazard_in_range l r (Fin s) =
     (in_range (r / l) \<and> in_range (s / l) \<and> in_range (r - 1)
      \<and> in_range ((s / l) powr (r - 1))
      \<and> in_range (r / l * (s / l) powr (r - 1)))"
| "hazard_in_range l r v = False"



section \<open>Values at finite, positive arguments\<close>

lemma np_pow_pos: "0 < x \<Longrightarrow> np_pow (Fin x) (Fin y) = Fin (x powr y)"
  by (simp add: np_pow_def)

lemma np_pow_zero_base: "0 < y \<Longrightarrow> np_pow (Fin 0) (Fin y) = Fin 0"
  by (simp add: np_pow_def)

lemma np_pow_nonneg: "0 \<le> x \<Longrightarrow> 0 < y \<Longrightarrow> np_pow (Fin x) (Fin y) = Fin (x powr y)"
  by (cases "x = 0") (simp_all add: np_pow_zero_base np_pow_pos)

lemma cumulative_hazard_value:
  assumes "0 < l" "0 < r" "0 \<le> s"
  shows "cumulative_hazard [Fin l, Fin r] (Scalar (Fin s)) = Inr (Scalar (Fin ((s / l) powr r)))"
  using assms by (simp add: np_pow_nonneg)

lemma hazard_value:
  assumes "0 < l" "0 < s"
  shows "hazard [Fin l, Fin r] (Scalar (Fin s))
           = Inr (Scalar (Fin (r / l * (s / l) powr (r - 1))))"
  using assms by (simp add: np_pow_pos np_sub_def)

lemma DERIV_cumulative:
  assumes "0 < l" "0 < s"
  shows "((\<lambda>u. (u / l) powr r) has_real_derivative (r / l * (s / l) powr (r - 1))) (at s)"
  using assms
  by (auto intro!: derivative_eq_intros simp: field_simps)

lemma eventually_pos_nhds: "0 < (s::real) \<Longrightarrow> eventually (\<lambda>u. 0 < u) (nhds s)"
  using eventually_nhds_in_open[of "{0<..}" s] by simp

lemma ad_deriv_eq:
  assumes ev: "eventually (\<lambda>u. f u = Some (g u)) (nhds s)"
      and d: "(g has_real_derivative d) (at s)"
  shows "ad_deriv f s = Fin d"
proof -
  have ev1: "eventually (\<lambda>u. f u \<noteq> None) (nhds s)"
    using ev by (rule eventually_mono) simp
  have ev2: "eventually (\<lambda>u. the (f u) = g u) (nhds s)"
    using ev by (rule eventually_mono) simp
  have d': "((\<lambda>u. the (f u)) has_real_derivative d) (at s)"
    using DERIV_cong_ev[OF refl ev2 refl] d by blast
  have sm: "smooth_at f s"
    unfolding smooth_at_def using ev1 d' by blast
  have "(THE e. ((\<lambda>u. the (f u)) has_real_derivative e) (at s)) = d"
    using d' by (rule the_equality) (rule DERIV_unique[OF _ d'])
  with sm show ?thesis by (simp add: ad_deriv_def)
qed

lemma elementwise_grad_cumulative_hazard:
  assumes "0 < l" "0 < s"
  shows "elementwise_grad (cumulative_hazard [Fin l, Fin r]) (Fin s)
           = Fin (r / l * (s / l) powr (r - 1))"
proof -
  have "eventually (\<lambda>u. fin_scalar (cumulative_hazard [Fin l, Fin r] (Scalar (Fin u)))
                          = Some ((u / l) powr r)) (nhds s)"
    using eventually_pos_nhds[OF assms(2)]
    by (rule eventually_mono) (use assms in \<open>simp add: np_pow_pos\<close>)
  then have "ad_deriv (\<lambda>u. fin_scalar (cumulative_hazard [Fin l, Fin r] (Scalar (Fin u)))) s
               = Fin (r / l * (s / l) powr (r - 1))"
    by (rule ad_deriv_eq) (rule DERIV_cumulative[OF assms])
  then show ?thesis by simp
qed


lemma nd_all_map: "nd_all Q (nd_map f t) = nd_all (\<lambda>x. Q (f x)) t"
  by (cases t) (simp_all add: list_all_iff)

lemma nd_all_mono:
  assumes "nd_all P t" "\<And>x. P x \<Longrightarrow> Q x"
  shows "nd_all Q t"
  using assms by (cases t) (simp_all add: list_all_iff)

lemma pos_finE: "pos_fin x \<Longrightarrow> (\<And>s. x = Fin s \<Longrightarrow> 0 < s \<Longrightarrow> thesis) \<Longrightarrow> thesis"
  by (cases x) simp_all

lemma nonneg_finE: "nonneg_fin x \<Longrightarrow> (\<And>s. x = Fin s \<Longrightarrow> 0 \<le> s \<Longrightarrow> thesis) \<Longrightarrow> thesis"
  by (cases x) simp_all

lemma length_two: "length xs = 2 \<longleftrightarrow> (\<exists>a b. xs = [a, b])"
  by (cases xs; cases "tl xs"; cases "tl (tl xs)"; auto)

lemma cumulative_hazard_bad:
  "length params \<noteq> 2 \<Longrightarrow> cumulative_hazard params t = Inl ValueError"
  by (induction params t rule: cumulative_hazard.induct) simp_all

lemma hazard_bad: "length params \<noteq> 2 \<Longrightarrow> hazard params t = Inl ValueError"
  by (induction params t rule: hazard.induct) simp_all

lemma log_hazard_p3_bad: "length params \<noteq> 2 \<Longrightarrow> log_hazard_p3 params t = Inl ValueError"
  by (induction params t rule: log_hazard_p3.induct) simp_all

lemma hazard_p6_bad: "length params \<noteq> 2 \<Longrightarrow> hazard_p6 params t = Inl ValueError"
  by (simp add: hazard_p6_def cumulative_hazard_bad)

lemma nd_map_nd_map: "nd_map f (nd_map g t) = nd_map (\<lambda>x. f (g x)) t"
  by (cases t) simp_all

section \<open>The parameter vector\<close>

text \<open>
  Claim C7. Every model function unpacks \<open>params\<close> into exactly two elements, the
  scale first and the shape second: on a vector of two elements
  \<open>cumulative_hazard\<close> and \<open>hazard\<close> compute their formulas from these two and every
  log-hazard and the differentiated hazard of Part 6 return a value; on a vector
  of any other length each of them raises \<open>ValueError\<close>.
\<close>

theorem params_have_two_elements:
  "(length params = 2 \<longrightarrow>
      cumulative_hazard params t
        = Inr (nd_map (\<lambda>x. np_pow (np_div x (params ! 0)) (params ! 1)) t)
      \<and> hazard params t
        = Inr (nd_map (\<lambda>x. np_mul (np_div (params ! 1) (params ! 0))
                 (np_pow (np_div x (params ! 0)) (np_sub (params ! 1) (Fin 1)))) t)
      \<and> (\<exists>v. log_hazard params t = Inr v)
      \<and> (\<exists>v. log_hazard_p3 params t = Inr v)
      \<and> (\<exists>v. hazard_p6 params t = Inr v)
      \<and> (\<exists>v. log_hazard_p6 params t = Inr v)) \<and>
   (length params \<noteq> 2 \<longrightarrow>
      cumulative_hazard params t = Inl ValueError
      \<and> hazard params t = Inl ValueError
      \<and> log_hazard params t = Inl ValueError
      \<and> log_hazard_p3 params t = Inl ValueError
      \<and> hazard_p6 params t = Inl ValueError
      \<and> log_hazard_p6 params t = Inl ValueError)"
  by (auto simp: length_two log_hazard_def log_hazard_p6_def hazard_p6_def
        cumulative_hazard_bad hazard_bad log_hazard_p3_bad)

theorem params_have_two_elements_witness:
  "cumulative_hazard [Fin 2, Fin 3] (Scalar (Fin 4)) = Inr (Scalar (Fin 8))
   \<and> hazard [Fin 2, Fin 3] (Scalar (Fin 4)) = Inr (Scalar (Fin 6))
   \<and> cumulative_hazard [Fin 2] (Scalar (Fin 4)) = Inl ValueError
   \<and> hazard [Fin 2, Fin 3, Fin 5] (Scalar (Fin 4)) = Inl ValueError
   \<and> log_hazard [] (Scalar (Fin 4)) = Inl ValueError"
  using params_have_two_elements[of "[Fin 2, Fin 3]" "Scalar (Fin 4)"]
        params_have_two_elements[of "[Fin 2]" "Scalar (Fin 4)"]
        params_have_two_elements[of "[Fin 2, Fin 3, Fin 5]" "Scalar (Fin 4)"]
        params_have_two_elements[of "[]" "Scalar (Fin 4)"]
  by (simp add: np_pow_pos np_sub_def)

section \<open>The hazard is the derivative of the cumulative hazard\<close>

text \<open>
  Claim C1. For a scale \<open>l > 0\<close>, a shape \<open>r > 0\<close> and a time \<open>t > 0\<close>, the hazard of
  Part 2 is the closed form \<open>r / l * (t / l) powr (r - 1)\<close>; the cumulative hazard is
  finite at every positive time and, as a function of the time, has this value
  as its derivative at \<open>t\<close>; and the hazard that Part 6 differentiates out of the
  cumulative hazard is the hazard of Part 2.
\<close>

theorem hazard_is_derivative_of_cumulative_hazard:
  assumes "0 < l" "0 < r" "0 < t"
  shows "hazard [Fin l, Fin r] (Scalar (Fin t))
           = Inr (Scalar (Fin (r / l * (t / l) powr (r - 1))))
       \<and> (\<forall>u>0. fin_scalar (cumulative_hazard [Fin l, Fin r] (Scalar (Fin u))) \<noteq> None)
       \<and> ((\<lambda>u. the (fin_scalar (cumulative_hazard [Fin l, Fin r] (Scalar (Fin u)))))
             has_real_derivative (r / l * (t / l) powr (r - 1))) (at t)
       \<and> hazard_p6 [Fin l, Fin r] (Scalar (Fin t)) = hazard [Fin l, Fin r] (Scalar (Fin t))"
proof -
  have val: "fin_scalar (cumulative_hazard [Fin l, Fin r] (Scalar (Fin u))) = Some ((u / l) powr r)"
    if "0 < u" for u
    using that assms by (simp add: np_pow_pos)
  have ev: "eventually (\<lambda>u. the (fin_scalar (cumulative_hazard [Fin l, Fin r] (Scalar (Fin u))))
              = (u / l) powr r) (nhds t)"
    using eventually_pos_nhds[OF assms(3)]
    by (rule eventually_mono) (simp add: val del: cumulative_hazard.simps)
  have d: "((\<lambda>u. the (fin_scalar (cumulative_hazard [Fin l, Fin r] (Scalar (Fin u)))))
             has_real_derivative (r / l * (t / l) powr (r - 1))) (at t)"
    using DERIV_cong_ev[OF refl ev refl] DERIV_cumulative[OF assms(1,3)] by blast
  have h: "hazard [Fin l, Fin r] (Scalar (Fin t))
             = Inr (Scalar (Fin (r / l * (t / l) powr (r - 1))))"
    using assms(1,3) by (rule hazard_value)
  have h6: "hazard_p6 [Fin l, Fin r] (Scalar (Fin t))
              = Inr (Scalar (Fin (r / l * (t / l) powr (r - 1))))"
    using elementwise_grad_cumulative_hazard[OF assms(1,3)] by (simp add: hazard_p6_def)
  show ?thesis using val d h h6 by simp
qed

theorem hazard_is_derivative_of_cumulative_hazard_witness:
  "hazard [Fin 2, Fin 3] (Scalar (Fin 4)) = Inr (Scalar (Fin 6))
   \<and> ((\<lambda>u. the (fin_scalar (cumulative_hazard [Fin 2, Fin 3] (Scalar (Fin u)))))
         has_real_derivative 6) (at 4)
   \<and> hazard_p6 [Fin 2, Fin 3] (Scalar (Fin 4)) = Inr (Scalar (Fin 6))"
  using hazard_is_derivative_of_cumulative_hazard[of 2 3 4] by simp

section \<open>The objective of each fit\<close>

text \<open>
  Claim C3, as stated, fails for the first fit of Part 2: what it hands to the
  optimizer is the log-likelihood, not its negation. With scale and shape one,
  one observed lifetime of two, the objective is \<open>-2\<close> and the negative
  log-likelihood is \<open>2\<close>.
\<close>

theorem part2_first_objective_counterexample:
  "objective_part2 [Fin 1, Fin 1] (Arr [Fin 2]) (Arr [Fin 1]) = Inr (Fin (- 2))
   \<and> negative_log_likelihood [Fin 1, Fin 1] (Arr [Fin 2]) (Arr [Fin 1]) = Inr (Fin 2)
   \<and> objective_part2 [Fin 1, Fin 1] (Arr [Fin 2]) (Arr [Fin 1])
       \<noteq> negative_log_likelihood [Fin 1, Fin 1] (Arr [Fin 2]) (Arr [Fin 1])"
  by (simp add: objective_part2_def negative_log_likelihood_def log_likelihood_def
        log_likelihood_with_def log_hazard_def np_pow_def np_sub_def)

text \<open>
  Claim C3, amended. The fit of Part 3 and the fit of Part 6 minimize a function
  that is pointwise the negative log-likelihood of their notebook (errors
  included); the first fit of Part 2 is handed the log-likelihood itself, of which
  \<open>negative_log_likelihood\<close> is the negation.
\<close>

theorem objectives_of_the_fits:
  "objective_part3 params t e = negative_log_likelihood_p3 params t e
   \<and> objective_part6 params t e = negative_log_likelihood_p6 params t e
   \<and> objective_part2 params t e = log_likelihood params t e
   \<and> negative_log_likelihood params t e
       = (case objective_part2 params t e of Inl err \<Rightarrow> Inl err | Inr v \<Rightarrow> Inr (np_neg v))"
  by (simp add: objective_part3_def objective_part6_def objective_part2_def value_and_grad_def
        negative_log_likelihood_def split: sum.splits)

theorem objectives_of_the_fits_witness:
  "objective_part3 [Fin 1, Fin 1] (Arr [Fin 2]) (Arr [Fin 1])
      = negative_log_likelihood_p3 [Fin 1, Fin 1] (Arr [Fin 2]) (Arr [Fin 1])
   \<and> objective_part3 [Fin 1, Fin 1] (Arr [Fin 2]) (Arr [Fin 1]) = Inr (Fin 2)
   \<and> objective_part2 [Fin 1, Fin 1] (Arr [Fin 2]) (Arr [Fin 1]) = Inr (Fin (- 2))"
  using objectives_of_the_fits[of "[Fin 1, Fin 1]" "Arr [Fin 2]" "Arr [Fin 1]"]
  by (simp add: negative_log_likelihood_p3_def log_likelihood_p3_def log_likelihood_def
        log_likelihood_with_def log_hazard_def np_pow_def np_sub_def)

section \<open>Overflow and underflow\<close>

text \<open>How \<open>rnd\<close> acts: the thresholds, the values it keeps and the order it preserves.\<close>

lemma underflow_threshold_pos: "0 < underflow_threshold"
  by (simp add: underflow_threshold_def)

lemma overflow_threshold_ge: "2 ^ 1023 \<le> overflow_threshold"
proof -
  have "(2::real) ^ 970 \<le> 2 ^ 1023" by (rule power_increasing) simp_all
  moreover have "(2::real) ^ 1024 = 2 * 2 ^ 1023" by (simp only: power_Suc[symmetric]) simp
  ultimately show ?thesis by (simp add: overflow_threshold_def)
qed

lemma overflow_threshold_gt_one: "1 < overflow_threshold"
proof -
  have "(1::real) < 2 ^ 1023" by (rule one_less_power) simp_all
  then show ?thesis using overflow_threshold_ge by linarith
qed

lemma underflow_threshold_lt_one: "underflow_threshold < 1"
proof -
  have "(1::real) < 2 ^ 1075" by (rule one_less_power) simp_all
  then show ?thesis by (simp add: underflow_threshold_def)
qed

lemma rnd_zero [simp]: "rnd 0 = Fin 0"
  using underflow_threshold_pos overflow_threshold_gt_one by (simp add: rnd_def)

lemma rnd_one [simp]: "rnd 1 = Fin 1"
  using underflow_threshold_lt_one overflow_threshold_gt_one by (simp add: rnd_def)

lemma rnd_in_range:
  assumes "underflow_threshold < \<bar>x\<bar>" "\<bar>x\<bar> < overflow_threshold"
  shows "rnd x = Fin x"
  using assms by (auto simp: rnd_def)

lemma rnd_underflow: "\<bar>x\<bar> \<le> underflow_threshold \<Longrightarrow> rnd x = Fin 0"
  using underflow_threshold_lt_one overflow_threshold_gt_one by (auto simp: rnd_def)

lemma rnd_nonneg: "0 \<le> x \<Longrightarrow> nonneg_or_inf (rnd x)"
  using overflow_threshold_gt_one by (auto simp: rnd_def)

lemma rnd_nonpos: "x \<le> 0 \<Longrightarrow> rnd x = NInf \<or> (\<exists>y\<le>0. rnd x = Fin y)"
  using overflow_threshold_gt_one by (auto simp: rnd_def)

lemma rnd_mono: "x \<le> y \<Longrightarrow> fle (rnd x) (rnd y)"
  using overflow_threshold_gt_one underflow_threshold_pos by (auto simp: rnd_def)

lemma rnd_not_NaN [simp]: "rnd x \<noteq> NaN"
  by (simp add: rnd_def)

lemma rnd_finite: "\<bar>x\<bar> < overflow_threshold \<Longrightarrow> is_fin (rnd x)"
  by (auto simp: rnd_def)

lemma rnd_bounded:
  assumes "0 \<le> x" "x \<le> 1"
  shows "in_unit_interval (rnd x)"
  using assms overflow_threshold_gt_one by (auto simp: rnd_def)

text \<open>Values that \<open>to_f64\<close> leaves as they are: the results of float64 operations.\<close>

lemma to_f64_rnd [simp]: "to_f64 (rnd x) = rnd x"
  using underflow_threshold_pos overflow_threshold_gt_one by (auto simp: rnd_def)

lemma to_f64_idem [simp]: "to_f64 (to_f64 v) = to_f64 v"
  by (cases v) simp_all

lemma stable_pos_range:
  assumes "to_f64 (Fin x) = Fin x" "0 < x"
  shows "underflow_threshold < x" "x < overflow_threshold"
  using assms by (auto simp: rnd_def split: if_splits)

lemma ln_inverse_power_two: "ln (1 / 2 ^ n) = - (real n * ln (2::real))"
  by (simp add: ln_div ln_realpow)

lemma ln_underflow_threshold: "- 2150 < ln underflow_threshold"
proof -
  have "ln (2::real) < 2" by (rule ln_less_self) simp
  then have "real 1075 * ln (2::real) < 2150" by simp
  then show ?thesis
    unfolding underflow_threshold_def ln_inverse_power_two by linarith
qed

lemma ln_underflow_threshold_eq: "ln underflow_threshold = - (1075 * ln 2)"
  unfolding underflow_threshold_def using ln_inverse_power_two[of 1075] by simp

lemma big_threshold: "2150 < overflow_threshold"
proof -
  have "(2::real) ^ 12 \<le> 2 ^ 1023" by (rule power_increasing) simp_all
  then show ?thesis using overflow_threshold_ge by simp
qed

lemma ln_stable_bounds:
  assumes "to_f64 (Fin x) = Fin x" "0 < x"
  shows "\<bar>ln x\<bar> < overflow_threshold"
proof -
  note r = stable_pos_range[OF assms]
  have "ln underflow_threshold < ln x"
    using r(1) underflow_threshold_pos by simp
  then have lo: "- overflow_threshold < ln x"
    using ln_underflow_threshold big_threshold by linarith
  have "ln x < x" using assms(2) by simp
  then have hi: "ln x < overflow_threshold" using r(2) by linarith
  show ?thesis using lo hi by simp
qed

lemma f64_log_finite_iff:
  assumes "to_f64 h = h"
  shows "is_fin (f64_log h) \<longleftrightarrow> pos_fin h"
proof (cases h)
  case (Fin x)
  show ?thesis
  proof (cases "0 < x")
    case True
    then have "is_fin (rnd (ln x))"
      using ln_stable_bounds[of x] assms Fin by (intro rnd_finite) simp
    then show ?thesis using True Fin by (simp add: f64_log_def)
  next
    case False
    then show ?thesis using Fin by (simp add: f64_log_def)
  qed
qed (simp_all add: f64_log_def)

lemma f64_log_NInf_iff:
  assumes "to_f64 h = h"
  shows "f64_log h = NInf \<longleftrightarrow> h = Fin 0"
proof (cases h)
  case (Fin x)
  show ?thesis
  proof (cases "0 < x")
    case True
    then have "is_fin (rnd (ln x))"
      using ln_stable_bounds[of x] assms Fin by (intro rnd_finite) simp
    then have "rnd (ln x) \<noteq> NInf" by auto
    then show ?thesis using True Fin by (simp add: f64_log_def)
  next
    case False
    then show ?thesis using Fin by (auto simp: f64_log_def)
  qed
qed (simp_all add: f64_log_def)

lemma stable_f64_ops [simp]:
  "to_f64 (f64_add a b) = f64_add a b" "to_f64 (f64_sub a b) = f64_sub a b"
  "to_f64 (f64_mul a b) = f64_mul a b" "to_f64 (f64_div a b) = f64_div a b"
  "to_f64 (f64_pow a b) = f64_pow a b" "to_f64 (f64_log a) = f64_log a"
  "to_f64 (f64_exp a) = f64_exp a"
  by (simp_all add: f64_add_def f64_sub_def f64_mul_def f64_div_def f64_pow_def f64_log_def
        f64_exp_def)

text \<open>Signs of float64 results.\<close>

lemma nonneg_or_infE:
  assumes "nonneg_or_inf v"
  obtains "v = PInf" | x where "v = Fin x" "0 \<le> x"
  using assms by (cases v) auto

lemma f64_div_nonneg:
  assumes "0 < l" "0 \<le> s"
  shows "nonneg_or_inf (f64_div (Fin s) (Fin l))"
  using assms by (simp add: f64_div_def rnd_nonneg)

lemma f64_pow_nonneg:
  assumes "nonneg_or_inf a" "b \<noteq> NaN"
  shows "nonneg_or_inf (f64_pow a b)"
  using assms(1)
proof (cases rule: nonneg_or_infE)
  case 1
  then show ?thesis using assms(2)
    by (cases b) (auto simp: f64_pow_def np_pow_def rnd_nonneg)
next
  case (2 x)
  then show ?thesis using assms(2)
    by (cases b) (auto simp: f64_pow_def np_pow_def rnd_nonneg)
qed

lemma f64_sub_not_NaN [simp]: "f64_sub (Fin x) (Fin y) \<noteq> NaN"
  by (simp add: f64_sub_def np_sub_def)

lemma f64_mul_not_negative:
  assumes "nonneg_or_inf a" "nonneg_or_inf b"
  shows "not_negative (f64_mul a b)"
proof -
  have "not_negative (rnd v)" if "0 \<le> v" for v
    using rnd_nonneg[OF that] by (cases "rnd v") simp_all
  then show ?thesis
    using assms
    by (elim nonneg_or_infE) (auto simp: f64_mul_def)
qed

text \<open>Values at moderate arguments and at powers of two.\<close>

lemma rnd_moderate:
  assumes "1 \<le> \<bar>x\<bar>" "\<bar>x\<bar> \<le> 4096"
  shows "rnd x = Fin x"
proof -
  have "(2::real) ^ 12 \<le> 2 ^ 1023" by (rule power_increasing) simp_all
  then have "\<bar>x\<bar> < overflow_threshold" using assms(2) overflow_threshold_ge by simp
  moreover have "underflow_threshold < \<bar>x\<bar>" using assms(1) underflow_threshold_lt_one by simp
  ultimately show ?thesis by (rule rnd_in_range[rotated])
qed

lemma rnd_inverse_power_two:
  "n \<le> 1074 \<Longrightarrow> rnd (1 / 2 ^ n) = Fin (1 / 2 ^ n)"
  "1075 \<le> n \<Longrightarrow> rnd (1 / 2 ^ n) = Fin 0"
proof -
  have pos: "(0::real) < 1 / 2 ^ n" by simp
  have le1: "(1::real) / 2 ^ n \<le> 1" by (simp add: field_simps)
  show "rnd (1 / 2 ^ n) = Fin (1 / 2 ^ n)" if "n \<le> 1074"
  proof -
    have "(2::real) ^ n < 2 ^ 1075" using that by (intro power_strict_increasing) simp_all
    then have "underflow_threshold < \<bar>1 / 2 ^ n\<bar>"
      by (simp add: underflow_threshold_def field_simps)
    moreover have "\<bar>(1::real) / 2 ^ n\<bar> < overflow_threshold"
      using le1 pos overflow_threshold_gt_one by linarith
    ultimately show ?thesis by (rule rnd_in_range)
  qed
  show "rnd (1 / 2 ^ n) = Fin 0" if "1075 \<le> n"
  proof -
    have "(2::real) ^ 1075 \<le> 2 ^ n" using that by (intro power_increasing) simp_all
    then have "\<bar>1 / 2 ^ n\<bar> \<le> underflow_threshold"
      by (simp add: underflow_threshold_def field_simps)
    then show ?thesis by (rule rnd_underflow)
  qed
qed

lemma rnd_power_two:
  "n \<le> 1023 \<Longrightarrow> rnd (2 ^ n) = Fin (2 ^ n)"
  "1024 \<le> n \<Longrightarrow> rnd (2 ^ n) = PInf"
proof -
  show "rnd (2 ^ n) = Fin (2 ^ n)" if "n \<le> 1023"
  proof -
    have a: "(2::real) ^ n \<le> 2 ^ 1023" using that by (intro power_increasing) simp_all
    have b: "(2::real) ^ 970 < 2 ^ 1023" by (intro power_strict_increasing) simp_all
    have c: "(2::real) ^ 1024 = 2 * 2 ^ 1023" by (simp only: power_Suc[symmetric]) simp
    have "\<bar>(2::real) ^ n\<bar> < overflow_threshold"
      using a b c by (simp add: overflow_threshold_def)
    moreover have "underflow_threshold < \<bar>(2::real) ^ n\<bar>"
    proof -
      have "(1::real) \<le> 2 ^ n" by (rule one_le_power) simp
      then show ?thesis using underflow_threshold_lt_one by linarith
    qed
    ultimately show ?thesis by (rule rnd_in_range[rotated])
  qed
  show "rnd (2 ^ n) = PInf" if "1024 \<le> n"
  proof -
    have "(2::real) ^ 1024 \<le> 2 ^ n" using that by (intro power_increasing) simp_all
    then have "overflow_threshold \<le> 2 ^ n" by (simp add: overflow_threshold_def)
    then show ?thesis by (simp add: rnd_def)
  qed
qed

lemma inverse_power_two_powr: "((1::real) / 2 ^ n) powr (of_nat k) = 1 / 2 ^ (n * k)"
  by (simp add: powr_realpow power_divide power_mult)




text \<open>The exponential of a negated cumulative hazard.\<close>

lemma exp_neg_underflows:
  assumes "1075 \<le> h"
  shows "exp (- h) \<le> underflow_threshold"
proof -
  have "(2::real) \<le> exp 1" using exp_ge_add_one_self[of "1::real"] by simp
  then have "(2::real) ^ 1075 \<le> exp 1 ^ 1075" by (intro power_mono) simp_all
  also have "\<dots> = exp (of_nat 1075 * 1)" by (rule exp_of_nat_mult[symmetric])
  also have "\<dots> \<le> exp h" using assms by simp
  finally have "1 / exp h \<le> 1 / (2::real) ^ 1075"
    by (intro divide_left_mono) simp_all
  then show ?thesis by (simp add: underflow_threshold_def exp_minus inverse_eq_divide)
qed

lemma f64_exp_neg_underflows:
  assumes "fle (Fin 1075) h"
  shows "f64_exp (np_neg h) = Fin 0"
proof (cases h)
  case (Fin x)
  then have "1075 \<le> x" using assms by simp
  then have "\<bar>exp (- x)\<bar> \<le> underflow_threshold" using exp_neg_underflows by simp
  then show ?thesis using Fin by (simp add: f64_exp_def rnd_underflow)
qed (use assms in \<open>simp_all add: f64_exp_def\<close>)

lemma f64_exp_neg_unit:
  assumes "nonneg_or_inf a"
  shows "in_unit_interval (f64_exp (np_neg a))"
  using assms
  by (cases rule: nonneg_or_infE) (simp_all add: f64_exp_def rnd_bounded)

lemma f64_exp_neg_zero_iff:
  assumes "nonneg_or_inf h"
  shows "f64_exp (np_neg h) = Fin 0 \<longleftrightarrow> fle (Fin (1075 * ln 2)) h"
  using assms
proof (cases rule: nonneg_or_infE)
  case 1
  then show ?thesis by (simp add: f64_exp_def)
next
  case (2 x)
  have "exp (- x) \<le> 1" using 2 by simp
  moreover have "\<bar>exp (- x)\<bar> = exp (- x)" by simp
  ultimately have hi: "\<bar>exp (- x)\<bar> < overflow_threshold"
    using overflow_threshold_gt_one by linarith
  have "rnd (exp (- x)) = Fin 0 \<longleftrightarrow> exp (- x) \<le> underflow_threshold"
  proof
    assume a: "rnd (exp (- x)) = Fin 0"
    show "exp (- x) \<le> underflow_threshold"
    proof (rule ccontr)
      assume "\<not> exp (- x) \<le> underflow_threshold"
      then have "rnd (exp (- x)) = Fin (exp (- x))" using hi by (intro rnd_in_range) simp_all
      with a show False by simp
    qed
  next
    assume "exp (- x) \<le> underflow_threshold"
    then show "rnd (exp (- x)) = Fin 0" by (intro rnd_underflow) simp
  qed
  also have "exp (- x) \<le> underflow_threshold \<longleftrightarrow> - x \<le> ln underflow_threshold"
    using underflow_threshold_pos by (simp add: ln_ge_iff)
  also have "\<dots> \<longleftrightarrow> 1075 * ln 2 \<le> x"
    unfolding ln_underflow_threshold_eq by auto
  finally show ?thesis using 2 by (simp add: f64_exp_def)
qed

text \<open>Monotonicity of the float64 operations.\<close>

lemma f64_div_mono:
  assumes "0 < l" "s \<le> t"
  shows "fle (f64_div (Fin s) (Fin l)) (f64_div (Fin t) (Fin l))"
  using assms by (simp add: f64_div_def rnd_mono divide_right_mono)

lemma f64_pow_mono:
  assumes "nonneg_or_inf a" "nonneg_or_inf b" "fle a b" "0 < r"
  shows "fle (f64_pow a (Fin r)) (f64_pow b (Fin r))"
proof -
  have pw: "f64_pow (Fin x) (Fin r) = rnd (x powr r)" if "0 \<le> x" for x
    using that assms(4) by (simp add: f64_pow_def np_pow_nonneg)
  have inf: "f64_pow PInf (Fin r) = PInf"
    using assms(4) by (simp add: f64_pow_def np_pow_def)
  show ?thesis
    using assms(1)
  proof (cases rule: nonneg_or_infE)
    case 1
    then have "b = PInf" using assms(2,3) by (cases b) simp_all
    then show ?thesis using 1 by (simp add: inf)
  next
    case (2 x)
    show ?thesis
      using assms(2)
    proof (cases rule: nonneg_or_infE)
      case 1
      then show ?thesis using 2 by (simp add: inf pw) (cases "rnd (x powr r)"; simp)
    next
      case (2 y)
      then have "x \<le> y" using assms(3) \<open>a = Fin x\<close> by simp
      then have "x powr r \<le> y powr r"
        using assms(4) \<open>0 \<le> x\<close> by (intro powr_mono2) simp_all
      then show ?thesis using 2 \<open>a = Fin x\<close> \<open>0 \<le> x\<close> by (simp add: pw rnd_mono)
    qed
  qed
qed

lemma f64_exp_neg_antimono:
  assumes "nonneg_or_inf a" "nonneg_or_inf b" "fle a b"
  shows "fle (f64_exp (np_neg b)) (f64_exp (np_neg a))"
  using assms(1)
proof (cases rule: nonneg_or_infE)
  case 1
  then have "b = PInf" using assms(2,3) by (cases b) simp_all
  then show ?thesis using 1 by (simp add: f64_exp_def)
next
  case (2 x)
  show ?thesis
    using assms(2)
  proof (cases rule: nonneg_or_infE)
    case 1
    have "in_unit_interval (rnd (exp (- x)))" using 2 by (intro rnd_bounded) simp_all
    then show ?thesis using 1 2 by (cases "rnd (exp (- x))") (simp_all add: f64_exp_def)
  next
    case (2 y)
    then have "x \<le> y" using assms(3) \<open>a = Fin x\<close> by simp
    then show ?thesis using 2 \<open>a = Fin x\<close> by (simp add: f64_exp_def rnd_mono)
  qed
qed

text \<open>Results in range are kept.\<close>

lemma in_range_rnd: "in_range x \<Longrightarrow> rnd x = Fin x"
proof -
  assume a: "in_range x"
  show ?thesis
  proof (cases "x = 0")
    case True
    then show ?thesis by simp
  next
    case False
    have "(2::real) ^ 1022 \<le> 2 ^ 1075" by (rule power_increasing) simp_all
    moreover have "(2::real) ^ 1022 < 2 ^ 1075" by (rule power_strict_increasing) simp_all
    then have "(1::real) / 2 ^ 1075 < 1 / 2 ^ 1022"
      by (intro divide_strict_left_mono) (simp_all del: power_numeral)
    then have "underflow_threshold < \<bar>x\<bar>"
      using a False unfolding in_range_def underflow_threshold_def by linarith
    moreover have "\<bar>x\<bar> < overflow_threshold" using a False by (simp add: in_range_def)
    ultimately show ?thesis by (intro rnd_in_range)
  qed
qed


lemma in_range_moderate: "1 / 4096 \<le> \<bar>x\<bar> \<Longrightarrow> \<bar>x\<bar> \<le> 4096 \<Longrightarrow> in_range x"
proof -
  assume a: "1 / 4096 \<le> \<bar>x\<bar>" "\<bar>x\<bar> \<le> 4096"
  have "(2::real) ^ 12 \<le> 2 ^ 1022" by (rule power_increasing) simp_all
  then have "(1::real) / 2 ^ 1022 \<le> 1 / 2 ^ 12"
    by (intro divide_left_mono) (simp_all del: power_numeral)
  moreover have "(1::real) / 2 ^ 12 = 1 / 4096" by simp
  ultimately have lo: "(1::real) / 2 ^ 1022 \<le> \<bar>x\<bar>" using a(1) by linarith
  have "(2::real) ^ 12 < 2 ^ 1023" by (rule power_strict_increasing) simp_all
  moreover have "(2::real) ^ 12 = 4096" by simp
  moreover have "(2::real) ^ 1023 \<le> overflow_threshold" by (rule overflow_threshold_ge)
  ultimately have hi: "\<bar>x\<bar> < overflow_threshold" using a(2) by linarith
  show ?thesis unfolding in_range_def using lo hi by blast
qed

lemma nd_all_mono2:
  assumes "nd_all P t" "nd_all Q t" "\<And>x. P x \<Longrightarrow> Q x \<Longrightarrow> R x"
  shows "nd_all R t"
  using assms by (cases t) (simp_all add: list_all_iff)

lemma cumulative_hazard_f64_in_range:
  assumes "0 < l" "0 < s" "cumulative_hazard_in_range l r (Fin s)"
  shows "f64_pow (f64_div (Fin s) (Fin l)) (Fin r) = Fin ((s / l) powr r)"
  using assms by (simp add: f64_div_def f64_pow_def in_range_rnd np_pow_pos)

lemma hazard_f64_in_range:
  assumes "0 < l" "0 < s" "hazard_in_range l r (Fin s)"
  shows "f64_mul (f64_div (Fin r) (Fin l))
           (f64_pow (f64_div (Fin s) (Fin l)) (f64_sub (Fin r) (Fin 1)))
         = Fin (r / l * (s / l) powr (r - 1))"
  using assms
  by (simp add: f64_div_def f64_sub_def np_sub_def f64_pow_def f64_mul_def in_range_rnd np_pow_pos)





lemma log_hazard_f64_elementwise:
  "log_hazard_f64 [lam, rho] t = Inr (nd_map (\<lambda>x. f64_log (f64_mul (f64_div rho lam)
                         (f64_pow (f64_div x lam) (f64_sub rho (Fin 1))))) t)"
  by (simp add: log_hazard_f64_def nd_map_nd_map)

section \<open>Positivity\<close>

lemma hazard_f64_underflow:
  "hazard_f64 [Fin 1, Fin 3] (Scalar (Fin (1 / 2 ^ 600))) = Inr (Scalar (Fin 0))"
proof -
  have d: "f64_div (Fin (1 / 2 ^ 600)) (Fin 1) = Fin (1 / 2 ^ 600)"
    by (simp add: f64_div_def rnd_inverse_power_two del: power_numeral)
  have q: "f64_div (Fin 3) (Fin 1) = Fin 3"
    by (simp add: f64_div_def rnd_moderate)
  have e: "f64_sub (Fin 3) (Fin 1) = Fin 2"
    by (simp add: f64_sub_def np_sub_def rnd_moderate)
  have sq: "((1::real) / 2 ^ 600) powr 2 = 1 / 2 ^ 1200"
    using inverse_power_two_powr[of 600 2] by (simp del: power_numeral powr_numeral)
  have ne: "(1::real) / 2 ^ 600 \<noteq> 1"
  proof -
    have "(1::real) < 2 ^ 600" by (rule one_less_power) simp_all
    then have "(2::real) ^ 600 \<noteq> 1" by linarith
    then show ?thesis by (simp add: field_simps del: power_numeral)
  qed
  have p: "f64_pow (Fin (1 / 2 ^ 600)) (Fin 2) = Fin 0"
    using ne
    by (simp add: f64_pow_def np_pow_def sq rnd_inverse_power_two del: powr_numeral power_numeral)
  show ?thesis by (simp add: d q e p f64_mul_def del: power_numeral)
qed

lemma inverse_power_two_cubed: "((1::real) / 2 ^ 600) powr 3 = 1 / 2 ^ 1800"
  using inverse_power_two_powr[of 600 3] by (simp del: power_numeral powr_numeral)

lemma cumulative_hazard_f64_underflow:
  "cumulative_hazard_f64 [Fin 1, Fin 3] (Scalar (Fin (1 / 2 ^ 600))) = Inr (Scalar (Fin 0))"
proof -
  have d: "f64_div (Fin (1 / 2 ^ 600)) (Fin 1) = Fin (1 / 2 ^ 600)"
    by (simp add: f64_div_def rnd_inverse_power_two del: power_numeral)
  have ne: "(1::real) / 2 ^ 600 \<noteq> 1"
  proof -
    have "(1::real) < 2 ^ 600" by (rule one_less_power) simp_all
    then have "(2::real) ^ 600 \<noteq> 1" by linarith
    then show ?thesis by (simp add: field_simps del: power_numeral)
  qed
  have p: "f64_pow (Fin (1 / 2 ^ 600)) (Fin 3) = Fin 0"
    using ne
    by (simp add: f64_pow_def np_pow_def inverse_power_two_cubed rnd_inverse_power_two
          del: powr_numeral power_numeral)
  show ?thesis by (simp add: d p del: power_numeral)
qed

text \<open>
  Claim C9, as stated, fails in the float64 reading: a positive result too small
  for a \<open>float64\<close> underflows to zero. With scale one, shape three and the
  positive time \<open>2 ^ -600\<close>, the cumulative hazard \<open>2 ^ -1800\<close> and the hazard
  \<open>3 * 2 ^ -1200\<close> are both zero, which is not positive, and the log-hazard is
  minus infinity.
\<close>

theorem hazards_underflow_counterexample:
  "cumulative_hazard_f64 [Fin 1, Fin 3] (Scalar (Fin (1 / 2 ^ 600))) = Inr (Scalar (Fin 0))
   \<and> hazard_f64 [Fin 1, Fin 3] (Scalar (Fin (1 / 2 ^ 600))) = Inr (Scalar (Fin 0))
   \<and> \<not> pos_fin (Fin 0)
   \<and> log_hazard_f64 [Fin 1, Fin 3] (Scalar (Fin (1 / 2 ^ 600))) = Inr (Scalar NInf)"
  by (simp add: log_hazard_f64_def hazard_f64_underflow cumulative_hazard_f64_underflow f64_log_def
        del: hazard_f64.simps cumulative_hazard_f64.simps power_numeral)

text \<open>
  Claim C9, amended. For a scale \<open>l > 0\<close>, a shape \<open>r > 0\<close> and times that are all
  finite and positive (a single time or an array), every cumulative hazard is a
  number that is not negative or plus infinity, every hazard is such a value or
  not-a-number, and a log-hazard is finite exactly where the hazard is a finite
  positive number. Where every intermediate result is in range, the cumulative
  hazards and the hazards are finite positive numbers and the log-hazards are
  finite.
\<close>

theorem hazards_positive_in_range:
  assumes "0 < l" "0 < r" "nd_all pos_fin t"
  shows "\<exists>H h. cumulative_hazard_f64 [Fin l, Fin r] t = Inr H \<and> nd_all nonneg_or_inf H
            \<and> hazard_f64 [Fin l, Fin r] t = Inr h \<and> nd_all not_negative h
            \<and> log_hazard_f64 [Fin l, Fin r] t = Inr (nd_map f64_log h)
            \<and> nd_all (\<lambda>v. is_fin (f64_log v) \<longleftrightarrow> pos_fin v) h
            \<and> (nd_all (cumulative_hazard_in_range l r) t \<longrightarrow> nd_all pos_fin H)
            \<and> (nd_all (hazard_in_range l r) t \<longrightarrow>
                  nd_all pos_fin h \<and> nd_all is_fin (nd_map f64_log h))"
proof -
  let ?H = "\<lambda>x. f64_pow (f64_div x (Fin l)) (Fin r)"
  let ?h = "\<lambda>x. f64_mul (f64_div (Fin r) (Fin l))
                      (f64_pow (f64_div x (Fin l)) (f64_sub (Fin r) (Fin 1)))"
  have d: "nonneg_or_inf (f64_div x (Fin l))" if "pos_fin x" for x
    using that assms(1) by (elim pos_finE) (simp add: f64_div_nonneg)
  have H: "nonneg_or_inf (?H x)" if "pos_fin x" for x
    using d[OF that] by (rule f64_pow_nonneg) simp
  have h: "not_negative (?h x)" if "pos_fin x" for x
  proof (rule f64_mul_not_negative)
    show "nonneg_or_inf (f64_div (Fin r) (Fin l))"
      using assms(1,2) by (simp add: f64_div_nonneg)
    show "nonneg_or_inf (f64_pow (f64_div x (Fin l)) (f64_sub (Fin r) (Fin 1)))"
      using d[OF that] by (rule f64_pow_nonneg) simp
  qed
  have lg: "is_fin (f64_log (f64_mul a b)) \<longleftrightarrow> pos_fin (f64_mul a b)" for a b
    by (rule f64_log_finite_iff) simp
  have Hp: "pos_fin (?H x)" if "pos_fin x" "cumulative_hazard_in_range l r x" for x
    using that assms(1)
    by (elim pos_finE) (simp add: cumulative_hazard_f64_in_range del: cumulative_hazard_in_range.simps)
  have hp: "pos_fin (?h x)" if "pos_fin x" "hazard_in_range l r x" for x
    using that assms(1,2)
    by (elim pos_finE) (simp add: hazard_f64_in_range del: hazard_in_range.simps)
  have lp: "is_fin (f64_log (?h x))" if "pos_fin x" "hazard_in_range l r x" for x
    using hp[OF that] lg by simp
  have c1: "nd_all nonneg_or_inf (nd_map ?H t)"
    unfolding nd_all_map using assms(3) H by (rule nd_all_mono)
  have c2: "nd_all not_negative (nd_map ?h t)"
    unfolding nd_all_map using assms(3) h by (rule nd_all_mono)
  have c3: "nd_all (\<lambda>v. is_fin (f64_log v) \<longleftrightarrow> pos_fin v) (nd_map ?h t)"
    unfolding nd_all_map using assms(3) lg by (rule nd_all_mono)
  have c4: "nd_all pos_fin (nd_map ?H t)" if "nd_all (cumulative_hazard_in_range l r) t"
    unfolding nd_all_map using assms(3) that Hp by (rule nd_all_mono2)
  have c5: "nd_all pos_fin (nd_map ?h t)" if "nd_all (hazard_in_range l r) t"
    unfolding nd_all_map using assms(3) that hp by (rule nd_all_mono2)
  have c6: "nd_all is_fin (nd_map f64_log (nd_map ?h t))" if "nd_all (hazard_in_range l r) t"
    unfolding nd_all_map using assms(3) that lp by (rule nd_all_mono2)
  show ?thesis
    using c1 c2 c3 c4 c5 c6 by (simp add: log_hazard_f64_def)
qed

theorem hazards_positive_in_range_witness:
  "\<exists>H h. cumulative_hazard_f64 [Fin 2, Fin 3] (Arr [Fin 1, Fin 4]) = Inr H \<and> nd_all pos_fin H
        \<and> hazard_f64 [Fin 2, Fin 3] (Arr [Fin 1, Fin 4]) = Inr h \<and> nd_all pos_fin h
        \<and> log_hazard_f64 [Fin 2, Fin 3] (Arr [Fin 1, Fin 4]) = Inr (nd_map f64_log h)
        \<and> nd_all is_fin (nd_map f64_log h)"
proof -
  have a: "nd_all (cumulative_hazard_in_range 2 3) (Arr [Fin 1, Fin 4])"
    by (simp add: in_range_moderate power_divide)
  have b: "nd_all (hazard_in_range 2 3) (Arr [Fin 1, Fin 4])"
    by (simp add: in_range_moderate power_divide)
  have c: "nd_all pos_fin (Arr [Fin 1, Fin 4])" by simp
  show ?thesis
    using hazards_positive_in_range[of 2 3 "Arr [Fin 1, Fin 4]"] a b c
    by (simp del: hazard_in_range.simps cumulative_hazard_in_range.simps)
qed

section \<open>Survival function and cumulative hazard\<close>

lemma cumulative_hazard_f64_overflow:
  "cumulative_hazard_f64 [Fin 1, Fin 2] (Scalar (Fin (2 ^ 512))) = Inr (Scalar PInf)"
proof -
  have d: "f64_div (Fin (2 ^ 512)) (Fin 1) = Fin (2 ^ 512)"
    by (simp add: f64_div_def rnd_power_two del: power_numeral)
  have sq: "((2::real) ^ 512) powr 2 = 2 ^ 1024"
  proof -
    have "((2::real) ^ 512) ^ 2 = 2 ^ (512 * 2)" by (simp only: power_mult)
    then show ?thesis by (simp del: power_numeral)
  qed
  have ne: "(2::real) ^ 512 \<noteq> 1"
  proof -
    have "(1::real) < 2 ^ 512" by (rule one_less_power) simp_all
    then show ?thesis by linarith
  qed
  have p: "f64_pow (Fin (2 ^ 512)) (Fin 2) = PInf"
    using ne
    by (simp add: f64_pow_def np_pow_def sq rnd_power_two del: powr_numeral power_numeral)
  show ?thesis by (simp add: d p del: power_numeral)
qed

lemma survival_f64_underflow:
  assumes "1075 \<le> t" "t \<le> 4096"
  shows "survival_function_f64 [Fin 1, Fin 1] (Scalar (Fin t)) = Inr (Scalar (Fin 0))"
    and "cumulative_hazard_f64 [Fin 1, Fin 1] (Scalar (Fin t)) = Inr (Scalar (Fin t))"
proof -
  have d: "f64_div (Fin t) (Fin 1) = Fin t"
    using assms by (simp add: f64_div_def rnd_moderate)
  have p: "f64_pow (Fin t) (Fin 1) = Fin t"
    using assms by (simp add: f64_pow_def np_pow_def rnd_moderate)
  show ch: "cumulative_hazard_f64 [Fin 1, Fin 1] (Scalar (Fin t)) = Inr (Scalar (Fin t))"
    by (simp add: d p)
  show "survival_function_f64 [Fin 1, Fin 1] (Scalar (Fin t)) = Inr (Scalar (Fin 0))"
    using assms f64_exp_neg_underflows[of "Fin t"]
    by (simp add: survival_function_f64_def ch del: cumulative_hazard_f64.simps)
qed

text \<open>
  Claim C10, as stated, fails in the float64 reading: the survival function
  underflows to zero, so that it is neither positive nor strictly decreasing, and
  the cumulative hazard overflows. With scale and shape one the survival function
  is zero at the time 2000 and at the time 3000 alike; with scale one and shape
  two the cumulative hazard at the time \<open>2 ^ 512\<close> is plus infinity.
\<close>

theorem survival_function_underflow_counterexample:
  "survival_function_f64 [Fin 1, Fin 1] (Scalar (Fin 2000)) = Inr (Scalar (Fin 0))
   \<and> survival_function_f64 [Fin 1, Fin 1] (Scalar (Fin 3000)) = Inr (Scalar (Fin 0))
   \<and> \<not> pos_fin (Fin 0)
   \<and> cumulative_hazard_f64 [Fin 1, Fin 2] (Scalar (Fin (2 ^ 512))) = Inr (Scalar PInf)"
  using survival_f64_underflow(1)[of 2000] survival_f64_underflow(1)[of 3000]
        cumulative_hazard_f64_overflow
  by (simp del: power_numeral)

text \<open>
  Claim C10, amended. For a scale \<open>l > 0\<close> and a shape \<open>r > 0\<close>, and two finite
  times \<open>0 \<le> s \<le> t\<close>: the cumulative hazards at \<open>s\<close> and at \<open>t\<close> are not negative
  (plus infinity included) and the one at \<open>s\<close> is at most the one at \<open>t\<close>; the
  survival function at \<open>t\<close> is at most the survival function at \<open>s\<close>, its values
  are numbers from zero to one, it is zero exactly when the cumulative hazard is
  at least \<open>1075 * ln 2\<close> (about 745.13), and it is one at time zero.
\<close>

theorem survival_function_f64_monotone:
  assumes "0 < l" "0 < r" "0 \<le> s" "s \<le> t"
  shows "\<exists>Hs Ht Ss St.
           cumulative_hazard_f64 [Fin l, Fin r] (Scalar (Fin s)) = Inr (Scalar Hs)
         \<and> cumulative_hazard_f64 [Fin l, Fin r] (Scalar (Fin t)) = Inr (Scalar Ht)
         \<and> nonneg_or_inf Hs \<and> nonneg_or_inf Ht \<and> fle Hs Ht
         \<and> survival_function_f64 [Fin l, Fin r] (Scalar (Fin s)) = Inr (Scalar Ss)
         \<and> survival_function_f64 [Fin l, Fin r] (Scalar (Fin t)) = Inr (Scalar St)
         \<and> in_unit_interval Ss \<and> in_unit_interval St \<and> fle St Ss
         \<and> (St = Fin 0 \<longleftrightarrow> fle (Fin (1075 * ln 2)) Ht)
         \<and> survival_function_f64 [Fin l, Fin r] (Scalar (Fin 0)) = Inr (Scalar (Fin 1))"
proof -
  let ?H = "\<lambda>u. f64_pow (f64_div (Fin u) (Fin l)) (Fin r)"
  have ds: "nonneg_or_inf (f64_div (Fin s) (Fin l))" and dt: "nonneg_or_inf (f64_div (Fin t) (Fin l))"
    using assms by (simp_all add: f64_div_nonneg)
  have Hs: "nonneg_or_inf (?H s)" using ds by (rule f64_pow_nonneg) simp
  have Ht: "nonneg_or_inf (?H t)" using dt by (rule f64_pow_nonneg) simp
  have mono: "fle (?H s) (?H t)"
    using ds dt f64_div_mono[OF assms(1,4)] assms(2) by (rule f64_pow_mono)
  have zero: "f64_exp (np_neg (?H 0)) = Fin 1"
    using assms(1,2) by (simp add: f64_div_def f64_pow_def np_pow_zero_base f64_exp_def)
  show ?thesis
    using Hs Ht mono f64_exp_neg_unit[OF Hs] f64_exp_neg_unit[OF Ht]
          f64_exp_neg_antimono[OF Hs Ht mono] zero f64_exp_neg_zero_iff[OF Ht]
    by (simp add: survival_function_f64_def)
qed

theorem survival_function_f64_monotone_witness:
  "\<exists>Hs Ht Ss St.
           cumulative_hazard_f64 [Fin 2, Fin 3] (Scalar (Fin 0)) = Inr (Scalar Hs)
         \<and> cumulative_hazard_f64 [Fin 2, Fin 3] (Scalar (Fin 4)) = Inr (Scalar Ht)
         \<and> nonneg_or_inf Hs \<and> nonneg_or_inf Ht \<and> fle Hs Ht
         \<and> survival_function_f64 [Fin 2, Fin 3] (Scalar (Fin 0)) = Inr (Scalar Ss)
         \<and> survival_function_f64 [Fin 2, Fin 3] (Scalar (Fin 4)) = Inr (Scalar St)
         \<and> in_unit_interval Ss \<and> in_unit_interval St \<and> fle St Ss
         \<and> (St = Fin 0 \<longleftrightarrow> fle (Fin (1075 * ln 2)) Ht)
         \<and> survival_function_f64 [Fin 2, Fin 3] (Scalar (Fin 0)) = Inr (Scalar (Fin 1))"
  by (rule survival_function_f64_monotone) simp_all

text \<open>
  Claim C5, as stated, fails in the float64 reading: with scale and shape one and
  the time 2000, the cumulative hazard is 2000, the survival function underflows
  to zero, and the negated logarithm of zero is plus infinity.
\<close>

theorem neg_log_survival_counterexample:
  "cumulative_hazard_f64 [Fin 1, Fin 1] (Scalar (Fin 2000)) = Inr (Scalar (Fin 2000))
   \<and> survival_function_f64 [Fin 1, Fin 1] (Scalar (Fin 2000)) = Inr (Scalar (Fin 0))
   \<and> np_neg (f64_log (Fin 0)) = PInf
   \<and> np_neg (f64_log (Fin 0)) \<noteq> Fin 2000"
  using survival_f64_underflow[of 2000]
  by (simp add: f64_log_def)

text \<open>
  Claim C5, amended. For a scale \<open>l > 0\<close>, a shape \<open>r > 0\<close> and times that are all
  finite and not negative, the survival function is the exponential of the
  negated cumulative hazard, element by element; the cumulative hazard is not
  negative or plus infinity, the survival function is a number from zero to one,
  and the negated logarithm of the survival function is not negative or plus
  infinity: it is plus infinity exactly where the cumulative hazard is at least
  \<open>1075 * ln 2\<close> (about 745.13).
\<close>

theorem survival_function_f64_of_cumulative_hazard:
  assumes "0 < l" "0 < r" "nd_all nonneg_fin t"
  shows "\<exists>S H. survival_function_f64 [Fin l, Fin r] t = Inr S
            \<and> cumulative_hazard_f64 [Fin l, Fin r] t = Inr H
            \<and> S = nd_map (\<lambda>x. f64_exp (np_neg x)) H
            \<and> nd_all nonneg_or_inf H \<and> nd_all in_unit_interval S
            \<and> nd_all nonneg_or_inf (nd_map (\<lambda>x. np_neg (f64_log x)) S)
            \<and> nd_all (\<lambda>h. np_neg (f64_log (f64_exp (np_neg h))) = PInf
                            \<longleftrightarrow> fle (Fin (1075 * ln 2)) h) H"
proof -
  let ?H = "\<lambda>x. f64_pow (f64_div x (Fin l)) (Fin r)"
  have H: "nonneg_or_inf (?H x)" if "nonneg_fin x" for x
  proof -
    have "nonneg_or_inf (f64_div x (Fin l))"
      using that assms(1) by (elim nonneg_finE) (simp add: f64_div_nonneg)
    then show ?thesis by (rule f64_pow_nonneg) simp
  qed
  have S: "in_unit_interval (f64_exp (np_neg (?H x)))" if "nonneg_fin x" for x
    using H[OF that] by (rule f64_exp_neg_unit)
  have nl: "nonneg_or_inf (np_neg (f64_log v))" if "in_unit_interval v" "to_f64 v = v" for v
  proof (cases v)
    case (Fin y)
    show ?thesis
    proof (cases "0 < y")
      case True
      then have "ln y \<le> 0" using that(1) Fin by simp
      moreover have "is_fin (rnd (ln y))"
        using ln_stable_bounds[of y] that(2) Fin True by (intro rnd_finite) simp
      ultimately show ?thesis
        using True Fin rnd_nonpos[of "ln y"] by (auto simp: f64_log_def)
    next
      case False
      then show ?thesis using that(1) Fin by (simp add: f64_log_def)
    qed
  qed (use that in simp_all)
  have nl': "nonneg_or_inf (np_neg (f64_log (f64_exp (np_neg (?H x)))))" if "nonneg_fin x" for x
    using S[OF that] by (rule nl) simp
  have uf: "np_neg (f64_log (f64_exp (np_neg (?H x)))) = PInf
              \<longleftrightarrow> fle (Fin (1075 * ln 2)) (?H x)" if "nonneg_fin x" for x
  proof -
    have "np_neg (f64_log (f64_exp (np_neg (?H x)))) = PInf
            \<longleftrightarrow> f64_log (f64_exp (np_neg (?H x))) = NInf"
      by (cases "f64_log (f64_exp (np_neg (?H x)))") simp_all
    also have "\<dots> \<longleftrightarrow> f64_exp (np_neg (?H x)) = Fin 0"
      by (rule f64_log_NInf_iff) simp
    also have "\<dots> \<longleftrightarrow> fle (Fin (1075 * ln 2)) (?H x)"
      using H[OF that] by (rule f64_exp_neg_zero_iff)
    finally show ?thesis .
  qed
  have c1: "nd_all nonneg_or_inf (nd_map ?H t)"
    unfolding nd_all_map using assms(3) H by (rule nd_all_mono)
  have c2: "nd_all in_unit_interval (nd_map (\<lambda>x. f64_exp (np_neg x)) (nd_map ?H t))"
    unfolding nd_all_map using assms(3) S by (rule nd_all_mono)
  have c3: "nd_all nonneg_or_inf (nd_map (\<lambda>x. np_neg (f64_log x))
              (nd_map (\<lambda>x. f64_exp (np_neg x)) (nd_map ?H t)))"
    unfolding nd_all_map using assms(3) nl' by (rule nd_all_mono)
  have c4: "nd_all (\<lambda>h. np_neg (f64_log (f64_exp (np_neg h))) = PInf
                          \<longleftrightarrow> fle (Fin (1075 * ln 2)) h) (nd_map ?H t)"
    unfolding nd_all_map using assms(3) uf by (rule nd_all_mono)
  show ?thesis
    using c1 c2 c3 c4 by (simp add: survival_function_f64_def)
qed

theorem survival_function_f64_of_cumulative_hazard_witness:
  "\<exists>S H. survival_function_f64 [Fin 2, Fin 3] (Arr [Fin 0, Fin 4]) = Inr S
            \<and> cumulative_hazard_f64 [Fin 2, Fin 3] (Arr [Fin 0, Fin 4]) = Inr H
            \<and> S = nd_map (\<lambda>x. f64_exp (np_neg x)) H
            \<and> nd_all nonneg_or_inf H \<and> nd_all in_unit_interval S
            \<and> nd_all nonneg_or_inf (nd_map (\<lambda>x. np_neg (f64_log x)) S)
            \<and> nd_all (\<lambda>h. np_neg (f64_log (f64_exp (np_neg h))) = PInf
                            \<longleftrightarrow> fle (Fin (1075 * ln 2)) h) H"
  by (rule survival_function_f64_of_cumulative_hazard) simp_all

section \<open>The three log-hazards\<close>






section \<open>The logarithm of a hazard that is not positive\<close>

lemma hazard_f64_not_negative:
  assumes "0 < l" "0 < r" "0 \<le> s"
  shows "\<exists>h. hazard_f64 [Fin l, Fin r] (Scalar (Fin s)) = Inr (Scalar h)
           \<and> not_negative h \<and> to_f64 h = h"
proof -
  have "not_negative (f64_mul (f64_div (Fin r) (Fin l))
            (f64_pow (f64_div (Fin s) (Fin l)) (f64_sub (Fin r) (Fin 1))))"
  proof (rule f64_mul_not_negative)
    show "nonneg_or_inf (f64_div (Fin r) (Fin l))"
      using assms by (simp add: f64_div_nonneg)
    have "nonneg_or_inf (f64_div (Fin s) (Fin l))"
      using assms by (simp add: f64_div_nonneg)
    then show "nonneg_or_inf (f64_pow (f64_div (Fin s) (Fin l)) (f64_sub (Fin r) (Fin 1)))"
      by (rule f64_pow_nonneg) simp
  qed
  then show ?thesis by simp
qed

lemma not_negative_le_zero: "not_negative h \<Longrightarrow> np_le_zero h \<longleftrightarrow> h = Fin 0"
  by (cases h) auto

lemma hazard_f64_at_zero:
  "hazard_f64 [Fin 1, Fin 2] (Scalar (Fin 0)) = Inr (Scalar (Fin 0))"
  by (simp add: f64_div_def f64_sub_def np_sub_def f64_pow_def np_pow_zero_base f64_mul_def
        rnd_moderate)

lemma log_likelihood_f64_at_zero:
  "log_likelihood_f64 [Fin 1, Fin 2] (Arr [Fin 0]) (Arr [Fin 1]) = Inr NInf"
proof -
  have lh: "log_hazard_f64 [Fin 1, Fin 2] (Arr [Fin 0]) = Inr (Arr [NInf])"
    by (simp add: log_hazard_f64_def f64_div_def f64_sub_def np_sub_def f64_pow_def
          np_pow_zero_base f64_mul_def rnd_moderate f64_log_def)
  have ch: "cumulative_hazard_f64 [Fin 1, Fin 2] (Arr [Fin 0]) = Inr (Arr [Fin 0])"
    by (simp add: f64_div_def f64_pow_def np_pow_zero_base)
  show ?thesis
    unfolding log_likelihood_f64_def log_likelihood_with_f64_def lh ch
    by (simp add: f64_mul_def f64_add_def f64_sub_def np_sub_def)
qed

text \<open>
  Claim C4. For a scale \<open>l > 0\<close>, a shape \<open>r > 0\<close> and a finite time \<open>s \<ge> 0\<close>, the
  log-hazard is minus infinity exactly when the hazard is less than or equal to
  zero. Such an input exists: with scale one, shape two and time zero the hazard
  is zero and the log-hazard is minus infinity, and the log-likelihood of one
  subject observed at that time is minus infinity.
\<close>

theorem log_hazard_neg_infinity_iff:
  assumes "0 < l" "0 < r" "0 \<le> s"
  shows "(log_hazard_f64 [Fin l, Fin r] (Scalar (Fin s)) = Inr (Scalar NInf)
            \<longleftrightarrow> (\<exists>h. hazard_f64 [Fin l, Fin r] (Scalar (Fin s)) = Inr (Scalar h)
                      \<and> np_le_zero h))
       \<and> hazard_f64 [Fin 1, Fin 2] (Scalar (Fin 0)) = Inr (Scalar (Fin 0))
       \<and> log_hazard_f64 [Fin 1, Fin 2] (Scalar (Fin 0)) = Inr (Scalar NInf)
       \<and> log_likelihood_f64 [Fin 1, Fin 2] (Arr [Fin 0]) (Arr [Fin 1]) = Inr NInf"
proof -
  obtain h where h: "hazard_f64 [Fin l, Fin r] (Scalar (Fin s)) = Inr (Scalar h)"
      "not_negative h" "to_f64 h = h"
    using hazard_f64_not_negative[OF assms] by blast
  have "log_hazard_f64 [Fin l, Fin r] (Scalar (Fin s)) = Inr (Scalar (f64_log h))"
    by (simp add: log_hazard_f64_def h(1) del: hazard_f64.simps)
  then have a: "log_hazard_f64 [Fin l, Fin r] (Scalar (Fin s)) = Inr (Scalar NInf)
            \<longleftrightarrow> (\<exists>h. hazard_f64 [Fin l, Fin r] (Scalar (Fin s)) = Inr (Scalar h)
                      \<and> np_le_zero h)"
    using h f64_log_NInf_iff[OF h(3)] not_negative_le_zero[OF h(2)] by simp
  have b: "log_hazard_f64 [Fin 1, Fin 2] (Scalar (Fin 0)) = Inr (Scalar NInf)"
    by (simp add: log_hazard_f64_def hazard_f64_at_zero f64_log_def del: hazard_f64.simps)
  show ?thesis
    using a b hazard_f64_at_zero log_likelihood_f64_at_zero by blast
qed

theorem log_hazard_neg_infinity_iff_witness:
  "(log_hazard_f64 [Fin 1, Fin 2] (Scalar (Fin 0)) = Inr (Scalar NInf)
      \<longleftrightarrow> (\<exists>h. hazard_f64 [Fin 1, Fin 2] (Scalar (Fin 0)) = Inr (Scalar h) \<and> np_le_zero h))
   \<and> log_hazard_f64 [Fin 1, Fin 2] (Scalar (Fin 0)) = Inr (Scalar NInf)
   \<and> log_likelihood_f64 [Fin 1, Fin 2] (Arr [Fin 0]) (Arr [Fin 1]) = Inr NInf"
  using log_hazard_neg_infinity_iff[of 1 2 0] by simp

section \<open>The likelihood restricted to the observed subjects\<close>

lemma f64_mul_one: "to_f64 y = y \<Longrightarrow> f64_mul (Fin 1) y = y"
  by (cases y) (simp_all add: f64_mul_def)

lemma f64_mul_zero_fin: "f64_mul (Fin 0) (Fin v) = Fin 0"
  by (simp add: f64_mul_def)

lemma f64_add_zero_right: "to_f64 a = a \<Longrightarrow> f64_add a (Fin 0) = a"
  by (cases a) (simp_all add: f64_add_def)

lemma observed_map:
  "length ts = length es \<Longrightarrow> observed (map f ts) es = map f (observed ts es)"
  by (induction ts es rule: list_induct2) (simp_all add: observed_def)

lemma masked_sum_f64:
  assumes "list_all2 (\<lambda>y e. to_f64 y = y \<and> (e = Fin 1 \<or> (e = Fin 0 \<and> is_fin y))) ys es"
      and "to_f64 a = a"
  shows "foldl f64_add a (map2 f64_mul es ys) = foldl f64_add a (observed ys es)"
  using assms
proof (induction ys es arbitrary: a rule: list_all2_induct)
  case Nil
  then show ?case by (simp add: observed_def)
next
  case (Cons y ys e es)
  from Cons.hyps(1) have st: "to_f64 y = y" and "e = Fin 1 \<or> (e = Fin 0 \<and> is_fin y)"
    by simp_all
  from this(2) show ?case
  proof
    assume "e = Fin 1"
    then show ?thesis
      using Cons.IH[of "f64_add a y"] by (simp add: observed_def f64_mul_one st)
  next
    assume "e = Fin 0 \<and> is_fin y"
    then obtain v where "e = Fin 0" "y = Fin v" by (cases y) auto
    then show ?thesis
      using Cons.IH[of a] Cons.prems
      by (simp add: observed_def f64_mul_zero_fin f64_add_zero_right)
  qed
qed

lemma log_likelihood_with_f64_observed:
  assumes arr: "\<And>xs. lh params (Arr xs) = Inr (Arr (map f xs))"
      and sc: "\<And>x. lh params (Scalar x) = Inr (Scalar (f x))"
      and st: "\<And>x. to_f64 (f x) = f x"
      and ok: "list_all2 (\<lambda>t e. e = Fin 1 \<or> (e = Fin 0 \<and> finite_at lh params t)) ts es"
  shows "log_likelihood_with_f64 lh params (Arr ts) (Arr es)
           = log_likelihood_observed_f64 lh params ts es"
proof -
  have len: "length ts = length es" using ok by (rule list_all2_lengthD)
  have "list_all2 (\<lambda>y e. to_f64 y = y \<and> (e = Fin 1 \<or> (e = Fin 0 \<and> is_fin y))) (map f ts) es"
    using ok by (simp add: list_all2_map1 finite_at_def sc st)
  then have "foldl f64_add (Fin 0) (map2 f64_mul es (map f ts))
             = foldl f64_add (Fin 0) (map f (observed ts es))"
    using masked_sum_f64[of "map f ts" es "Fin 0"] len by (simp add: observed_map)
  then show ?thesis
    using len
    by (simp add: log_likelihood_with_f64_def log_likelihood_observed_f64_def arr
          split: sum.splits)
qed

lemma log_likelihood_with_f64_bad:
  assumes "\<And>t. lh params t = Inl ValueError"
  shows "log_likelihood_with_f64 lh params (Arr ts) (Arr es)
           = log_likelihood_observed_f64 lh params ts es"
  using assms by (simp add: log_likelihood_with_f64_def log_likelihood_observed_f64_def)

lemma hazard_f64_bad: "length params \<noteq> 2 \<Longrightarrow> hazard_f64 params t = Inl ValueError"
  by (induction params t rule: hazard_f64.induct) simp_all

lemma log_hazard_p3_f64_bad:
  "length params \<noteq> 2 \<Longrightarrow> log_hazard_p3_f64 params t = Inl ValueError"
  by (induction params t rule: log_hazard_p3_f64.induct) simp_all

text \<open>
  Claim C6, as stated, fails: multiplying by the indicator does not remove a
  log-hazard that is not finite, because zero times minus infinity is
  not-a-number. With scale one, shape two and a single subject censored at time
  zero, the log-likelihood is not-a-number, while the log-hazard summed over the
  observed subjects (there is none) minus the cumulative hazard is zero.
\<close>

theorem log_likelihood_f64_censored_at_zero_counterexample:
  "log_likelihood_f64 [Fin 1, Fin 2] (Arr [Fin 0]) (Arr [Fin 0]) = Inr NaN
   \<and> log_likelihood_observed_f64 log_hazard_f64 [Fin 1, Fin 2] [Fin 0] [Fin 0] = Inr (Fin 0)
   \<and> log_likelihood_f64 [Fin 1, Fin 2] (Arr [Fin 0]) (Arr [Fin 0])
       \<noteq> log_likelihood_observed_f64 log_hazard_f64 [Fin 1, Fin 2] [Fin 0] [Fin 0]"
proof -
  have lh: "log_hazard_f64 [Fin 1, Fin 2] (Arr [Fin 0]) = Inr (Arr [NInf])"
    by (simp add: log_hazard_f64_def f64_div_def f64_sub_def np_sub_def f64_pow_def
          np_pow_zero_base f64_mul_def rnd_moderate f64_log_def)
  have lh0: "log_hazard_f64 [Fin 1, Fin 2] (Arr []) = Inr (Arr [])"
    by (simp add: log_hazard_f64_def)
  have ch: "cumulative_hazard_f64 [Fin 1, Fin 2] (Arr [Fin 0]) = Inr (Arr [Fin 0])"
    by (simp add: f64_div_def f64_pow_def np_pow_zero_base)
  have a: "log_likelihood_f64 [Fin 1, Fin 2] (Arr [Fin 0]) (Arr [Fin 0]) = Inr NaN"
    unfolding log_likelihood_f64_def log_likelihood_with_f64_def lh ch
    by (simp add: f64_mul_def f64_add_def f64_sub_def np_sub_def)
  have b: "log_likelihood_observed_f64 log_hazard_f64 [Fin 1, Fin 2] [Fin 0] [Fin 0] = Inr (Fin 0)"
    unfolding log_likelihood_observed_f64_def ch
    by (simp add: observed_def lh0 f64_add_def f64_sub_def np_sub_def)
  show ?thesis using a b by simp
qed

text \<open>
  Claim C6, amended. For a parameter vector, an array of lifetimes and an array
  of indicators of the same length whose entries are each zero or one, provided
  the log-hazard is finite at every lifetime whose indicator is zero: the
  log-likelihood is the log-hazard summed over exactly the lifetimes with
  indicator one, minus the cumulative hazard summed over all lifetimes. This
  holds with the log-hazard of Part 2 and with the closed form of Part 3.
\<close>

theorem log_likelihood_f64_sums_observed:
  "(list_all2 (\<lambda>t e. e = Fin 1 \<or> (e = Fin 0 \<and> finite_at log_hazard_f64 params t)) ts es \<longrightarrow>
      log_likelihood_f64 params (Arr ts) (Arr es)
        = log_likelihood_observed_f64 log_hazard_f64 params ts es)
   \<and> (list_all2 (\<lambda>t e. e = Fin 1 \<or> (e = Fin 0 \<and> finite_at log_hazard_p3_f64 params t)) ts es \<longrightarrow>
      log_likelihood_p3_f64 params (Arr ts) (Arr es)
        = log_likelihood_observed_f64 log_hazard_p3_f64 params ts es)"
proof (cases "length params = 2")
  case True
  then obtain lam rho where p: "params = [lam, rho]" by (auto simp: length_two)
  show ?thesis
    unfolding p log_likelihood_f64_def log_likelihood_p3_f64_def
    by (intro conjI impI log_likelihood_with_f64_observed)
       (simp_all add: log_hazard_f64_elementwise)+
next
  case False
  then have "log_hazard_f64 params t = Inl ValueError"
      "log_hazard_p3_f64 params t = Inl ValueError" for t
    by (simp_all add: log_hazard_f64_def hazard_f64_bad log_hazard_p3_f64_bad)
  then show ?thesis
    unfolding log_likelihood_f64_def log_likelihood_p3_f64_def
    by (intro conjI impI log_likelihood_with_f64_bad)
qed

theorem log_likelihood_f64_sums_observed_witness:
  "log_likelihood_f64 [Fin 1, Fin 1] (Arr [Fin 1, Fin 1]) (Arr [Fin 1, Fin 0])
     = log_likelihood_observed_f64 log_hazard_f64 [Fin 1, Fin 1] [Fin 1, Fin 1] [Fin 1, Fin 0]
   \<and> log_likelihood_p3_f64 [Fin 1, Fin 1] (Arr [Fin 1, Fin 1]) (Arr [Fin 1, Fin 0])
     = log_likelihood_observed_f64 log_hazard_p3_f64 [Fin 1, Fin 1] [Fin 1, Fin 1] [Fin 1, Fin 0]"
proof -
  have a: "list_all2 (\<lambda>t e. e = Fin 1 \<or> (e = Fin 0 \<and> finite_at log_hazard_f64 [Fin 1, Fin 1] t))
             [Fin 1, Fin 1] [Fin 1, Fin 0]"
    by (simp add: finite_at_def log_hazard_f64_def f64_div_def f64_sub_def np_sub_def
          f64_pow_def np_pow_def f64_mul_def f64_log_def)
  have b: "list_all2 (\<lambda>t e. e = Fin 1 \<or> (e = Fin 0 \<and> finite_at log_hazard_p3_f64 [Fin 1, Fin 1] t))
             [Fin 1, Fin 1] [Fin 1, Fin 0]"
    by (simp add: finite_at_def f64_sub_def np_sub_def f64_mul_def f64_log_def f64_add_def)
  show ?thesis
    using log_likelihood_f64_sums_observed[of "[Fin 1, Fin 1]" "[Fin 1, Fin 1]" "[Fin 1, Fin 0]"] a b
    by blast
qed

end
